theory Spec2Isabelle
  imports Main "HOL-Library.Sublist"
begin

section \<open>Python values used by the retrieval and citation core\<close>

text \<open>
  Python strings are modelled as \<open>string\<close>; \<open>len\<close> is \<open>length\<close> and the slice
  \<open>s[i:j]\<close> with \<open>0 \<le> i \<le> j\<close> is \<open>take (j - i) (drop i s)\<close>, which like Python clips
  at the end of the string instead of failing.
\<close>

definition py_slice :: "'a list \<Rightarrow> nat \<Rightarrow> nat \<Rightarrow> 'a list" where
  "py_slice s i j = take (j - i) (drop i s)"

subsection \<open>Excerpts (rag\_chain.py, line 245)\<close>

text \<open>
  \<^verbatim>\<open>excerpt = doc.page_content[:300] + "..." if len(doc.page_content) > 300 else doc.page_content\<close>
  The conditional expression binds weaker than \<open>+\<close>, so the dots are appended only in
  the truncating branch.
\<close>

definition make_excerpt :: "string \<Rightarrow> string" where
  "make_excerpt page_content =
     (if length page_content > 300 then py_slice page_content 0 300 @ ''...''
      else page_content)"

section \<open>Legacy chunking (rag.py, \_legacy\_process\_document)\<close>

text \<open>
  \<^verbatim>\<open>
  chunk_size = 500
  overlap = 50
  chunks = []
  for i in range(0, len(content), chunk_size - overlap):
      chunks.append(content[i:i + chunk_size])
  \<close>
  The \<open>range\<close> loop is the recursion \<open>chunks_from\<close> on the start index, which stops as
  soon as the index reaches the length of the content.
\<close>

definition chunk_size :: nat where "chunk_size = 500"
definition overlap :: nat where "overlap = 50"

function chunks_from :: "nat \<Rightarrow> string \<Rightarrow> string list" where
  "chunks_from i content =
     (if i < length content
      then py_slice content i (i + chunk_size) # chunks_from (i + (chunk_size - overlap)) content
      else [])"
  by pat_completeness auto
termination
  by (relation "measure (\<lambda>(i, content). length content - i)")
     (auto simp: chunk_size_def overlap_def)

definition legacy_chunks :: "string \<Rightarrow> string list" where
  "legacy_chunks content = chunks_from 0 content"

text \<open>
  The chunk count the specification gives for content longer than one window:
  \<open>ceil((len(content) - overlap) / (window - overlap))\<close>, on natural numbers.
\<close>

definition spec_chunk_count :: "nat \<Rightarrow> nat" where
  "spec_chunk_count n = (n - overlap + (chunk_size - overlap) - 1) div (chunk_size - overlap)"

section \<open>Exceptions and dictionaries\<close>

text \<open>
  A raised exception is a value: its class and the text \<open>str(e)\<close> renders. The handlers of
  this code are all \<open>except Exception\<close> or \<open>except ValueError\<close>, so the classes are the ones
  the code raises itself, one for any other subclass of \<open>Exception\<close> a collaborator may
  raise, and one for what derives from \<open>BaseException\<close> only (a cancellation, an
  interrupt), which \<open>except Exception\<close> does not catch.
\<close>

datatype exc_class =
  ValueError | NotImplementedError | TypeError | IndexError | KeyError
  | OtherException | BaseExceptionOnly

datatype error = Raised exc_class string

fun exc_class_of :: "error \<Rightarrow> exc_class" where
  "exc_class_of (Raised c m) = c"

fun str_exc :: "error \<Rightarrow> string" where
  "str_exc (Raised c m) = m"

definition is_Exception :: "error \<Rightarrow> bool" where
  "is_Exception e = (exc_class_of e \<noteq> BaseExceptionOnly)"

text \<open>
  A Python \<open>dict\<close> keeps its keys in insertion order: an association list with distinct
  keys, where assigning to a key that is present replaces its value in place and
  assigning to a new key appends it.
\<close>

type_synonym ('k, 'v) pydict = "('k \<times> 'v) list"

definition dict_get :: "('k, 'v) pydict \<Rightarrow> 'k \<Rightarrow> 'v option" where
  "dict_get d k = map_of d k"

definition dict_set :: "('k, 'v) pydict \<Rightarrow> 'k \<Rightarrow> 'v \<Rightarrow> ('k, 'v) pydict" where
  "dict_set d k v =
     (if map_of d k = None then d @ [(k, v)]
      else map (\<lambda>(k', v'). if k' = k then (k', v) else (k', v')) d)"

text \<open>\<open>a or b\<close> on optional strings: \<open>None\<close> and the empty string are falsy.\<close>

definition truthy :: "string option \<Rightarrow> bool" where
  "truthy a = (case a of None \<Rightarrow> False | Some s \<Rightarrow> s \<noteq> [])"

definition py_or :: "string option \<Rightarrow> string option \<Rightarrow> string option" where
  "py_or a b = (if truthy a then a else b)"

text \<open>\<open>str(n)\<close> on an integer, and \<open>sep.join(parts)\<close>.\<close>

fun str_nat :: "nat \<Rightarrow> string" where
  "str_nat n =
     (if n < 10 then [''0123456789'' ! n]
      else str_nat (n div 10) @ [''0123456789'' ! (n mod 10)])"

definition str_int :: "int \<Rightarrow> string" where
  "str_int i = (if i < 0 then ''-'' @ str_nat (nat (- i)) else str_nat (nat i))"

fun py_join :: "string \<Rightarrow> string list \<Rightarrow> string" where
  "py_join sep [] = []"
| "py_join sep [x] = x"
| "py_join sep (x # y # ys) = x @ sep @ py_join sep (y # ys)"

text \<open>The quotation mark that \<open>repr\<close> puts around a string.\<close>

definition quote :: string where
  "quote = [CHR 0x27]"

section \<open>Retrieval (rag\_chain.py, RAGChain.retrieve\_context)\<close>

text \<open>
  A retrieved \<open>Document\<close> has its text and its metadata dictionary; the code reads only
  \<open>metadata.get("source_name", "Unknown")\<close>.
\<close>

record document =
  page_content :: string
  metadata :: "string \<rightharpoonup> string"

definition doc_source :: "document \<Rightarrow> string" where
  "doc_source doc = (case metadata doc ''source_name'' of None \<Rightarrow> ''Unknown'' | Some s \<Rightarrow> s)"

text \<open>
  The vector store is a collaborator. A call \<open>similarity_search(query, k=k, filter=f)\<close> is
  the triple of its arguments, and the store is a function from the call to the documents
  it returns or the exception it raises. The three filters the code builds:
  \<open>{"notebook_id": n}\<close>, \<open>{"$and": [{"notebook_id": n}, {"source_name": {"$in": sources}}]}\<close>
  and \<open>{"$and": [{"notebook_id": n}, {"source_name": source}]}\<close>.
\<close>

datatype where_filter =
  ByNotebook string
  | ByNotebookAndSources string "string list"
  | ByNotebookAndSource string string

type_synonym search_call = "string \<times> int \<times> where_filter"

type_synonym vectorstore = "search_call \<Rightarrow> error + document list"

text \<open>
  \<open>selected_sources\<close> is an optional list; \<open>if selected_sources\<close> holds for a list that is
  present and not empty.
\<close>

definition sources_of :: "string list option \<Rightarrow> string list" where
  "sources_of selected_sources = (case selected_sources of None \<Rightarrow> [] | Some xs \<Rightarrow> xs)"

definition filter_dict :: "string \<Rightarrow> string list option \<Rightarrow> where_filter" where
  "filter_dict notebook_id selected_sources =
     (if sources_of selected_sources \<noteq> []
      then ByNotebookAndSources notebook_id (sources_of selected_sources)
      else ByNotebook notebook_id)"

text \<open>
  \<open>int(n_results / len(selected_sources))\<close>: the true quotient, truncated towards zero.
  The divisor is the length of a non-empty list. (The quotient is a float in Python; it
  is exact for every \<open>n_results\<close> below \<open>2^53\<close> in absolute value.)
\<close>

definition py_int_truediv :: "int \<Rightarrow> int \<Rightarrow> int" where
  "py_int_truediv a b = (if a < 0 then - ((- a) div b) else a div b)"

definition per_source_k :: "int \<Rightarrow> string list \<Rightarrow> int" where
  "per_source_k n_results selected_sources =
     max 3 (py_int_truediv n_results (int (length selected_sources)) + 1)"

text \<open>
  The balanced loop: one search per selected source. An \<open>Exception\<close> of a search is
  printed and the loop goes on; anything else ends the call. The calls made so far are
  returned with the result.
\<close>

fun balanced_loop ::
  "vectorstore \<Rightarrow> string \<Rightarrow> string \<Rightarrow> int \<Rightarrow> string list \<Rightarrow> search_call list \<Rightarrow> document list
     \<Rightarrow> search_call list \<times> (error + document list)" where
  "balanced_loop vs notebook_id query k [] calls results = (calls, Inr results)"
| "balanced_loop vs notebook_id query k (source # rest) calls results =
     (let call = (query, k, ByNotebookAndSource notebook_id source) in
      case vs call of
        Inr source_docs \<Rightarrow>
          balanced_loop vs notebook_id query k rest (calls @ [call]) (results @ source_docs)
      | Inl e \<Rightarrow>
          if is_Exception e
          then balanced_loop vs notebook_id query k rest (calls @ [call]) results
          else (calls @ [call], Inl e))"

definition balanced_mode :: "string list option \<Rightarrow> bool" where
  "balanced_mode selected_sources =
     (sources_of selected_sources \<noteq> [] \<and> length (sources_of selected_sources) \<le> 5)"

definition retrieve_results ::
  "vectorstore \<Rightarrow> string \<Rightarrow> string \<Rightarrow> string list option \<Rightarrow> int
     \<Rightarrow> search_call list \<times> (error + document list)" where
  "retrieve_results vs notebook_id query selected_sources n_results =
     (if balanced_mode selected_sources
      then balanced_loop vs notebook_id query
             (per_source_k n_results (sources_of selected_sources))
             (sources_of selected_sources) [] []
      else (let call = (query, n_results, filter_dict notebook_id selected_sources)
            in ([call], vs call)))"

subsection \<open>Context and citations\<close>

record CitationInfo =
  cit_id :: int
  source_name :: string
  excerpts :: "string list"

record assembly =
  context_parts :: "string list"
  source_map :: "(string, int) pydict"
  citation_info :: "(int, CitationInfo) pydict"
  citation_counter :: int

definition source_block :: "int \<Rightarrow> string \<Rightarrow> string \<Rightarrow> string" where
  "source_block cid name text =
     ''--- BEGIN SOURCE ['' @ str_int cid @ ''] ('' @ name @ '') ---\<newline>''
     @ text @ ''\<newline>--- END SOURCE ['' @ str_int cid @ ''] ---''"

definition assembly_init :: assembly where
  "assembly_init =
     \<lparr>context_parts = [], source_map = [], citation_info = [], citation_counter = 1\<rparr>"

definition assign_citation :: "assembly \<Rightarrow> string \<Rightarrow> assembly" where
  "assign_citation st name =
     (if dict_get (source_map st) name = None
      then st\<lparr>source_map := dict_set (source_map st) name (citation_counter st),
              citation_info := dict_set (citation_info st) (citation_counter st)
                 \<lparr>cit_id = citation_counter st, source_name = name, excerpts = []\<rparr>,
              citation_counter := citation_counter st + 1\<rparr>
      else st)"

text \<open>
  One pass of the loop over \<open>results\<close>. The two subscripts \<open>source_map[source_name]\<close> and
  \<open>citation_info[cid]\<close> raise \<open>KeyError\<close> on a missing key.
\<close>

definition assemble_step :: "assembly \<Rightarrow> document \<Rightarrow> error + assembly" where
  "assemble_step st doc =
     (let name = doc_source doc; st1 = assign_citation st name in
      case dict_get (source_map st1) name of
        None \<Rightarrow> Inl (Raised KeyError (quote @ name @ quote))
      | Some cid \<Rightarrow>
          (case dict_get (citation_info st1) cid of
             None \<Rightarrow> Inl (Raised KeyError (str_int cid))
           | Some info \<Rightarrow>
               Inr (st1\<lparr>citation_info := dict_set (citation_info st1) cid
                           (info\<lparr>excerpts := excerpts info @ [make_excerpt (page_content doc)]\<rparr>),
                        context_parts := context_parts st1
                           @ [source_block cid name (page_content doc)]\<rparr>)))"

fun assemble :: "assembly \<Rightarrow> document list \<Rightarrow> error + assembly" where
  "assemble st [] = Inr st"
| "assemble st (doc # results) =
     (case assemble_step st doc of Inl e \<Rightarrow> Inl e | Inr st' \<Rightarrow> assemble st' results)"

text \<open>
  \<open>retrieve_context\<close> returns the context string and the citation dictionary. Its first
  argument is what \<open>self._get_vectorstore()\<close> gives: the store, or the exception of the
  embedding provider or of the connection. The messages it prints are not modelled.
\<close>

type_synonym retrieved = "string \<times> (int, CitationInfo) pydict"

definition retrieve_context ::
  "error + vectorstore \<Rightarrow> string \<Rightarrow> string \<Rightarrow> string list option \<Rightarrow> int
     \<Rightarrow> search_call list \<times> (error + retrieved)" where
  "retrieve_context get_vectorstore notebook_id query selected_sources n_results =
     (case get_vectorstore of
        Inl e \<Rightarrow> ([], Inl e)
      | Inr vs \<Rightarrow>
          (case retrieve_results vs notebook_id query selected_sources n_results of
             (calls, Inl e) \<Rightarrow> (calls, Inl e)
           | (calls, Inr results) \<Rightarrow>
               (case assemble assembly_init results of
                  Inl e \<Rightarrow> (calls, Inl e)
                | Inr st \<Rightarrow>
                    (calls, Inr (py_join ''\<newline>\<newline>'' (context_parts st), citation_info st)))))"

subsection \<open>Notions used to state the retrieval properties\<close>

text \<open>
  The distinct values of a list in the order of their first occurrence; the call the
  balanced loop makes for one source, and what that call contributes to the results (an
  exception that is caught contributes nothing); the excerpts of the chunks of one source,
  in result order.
\<close>

fun first_seen :: "'a list \<Rightarrow> 'a list" where
  "first_seen [] = []"
| "first_seen (x # xs) = x # filter (\<lambda>y. y \<noteq> x) (first_seen xs)"

definition source_call :: "string \<Rightarrow> string \<Rightarrow> int \<Rightarrow> string \<Rightarrow> search_call" where
  "source_call notebook_id query k source = (query, k, ByNotebookAndSource notebook_id source)"

definition contribution :: "vectorstore \<Rightarrow> search_call \<Rightarrow> document list" where
  "contribution vs call = (case vs call of Inl e \<Rightarrow> [] | Inr docs \<Rightarrow> docs)"

definition excerpts_of :: "document list \<Rightarrow> string \<Rightarrow> string list" where
  "excerpts_of results name =
     map (\<lambda>d. make_excerpt (page_content d)) (filter (\<lambda>d. doc_source d = name) results)"

text \<open>
  The invariant of the assembly loop after the results \<open>results\<close>: the two dictionaries hold
  the sources seen so far in first-seen order under the keys \<open>1..n\<close>.
\<close>

definition citation_keys :: "nat \<Rightarrow> int list" where
  "citation_keys n = map (\<lambda>j. int j + 1) [0..<n]"

definition assembled :: "document list \<Rightarrow> assembly \<Rightarrow> bool" where
  "assembled results st \<longleftrightarrow>
     (let fs = first_seen (map doc_source results); n = length fs in
        map fst (source_map st) = fs
      \<and> (\<forall>j<n. dict_get (source_map st) (fs ! j) = Some (int j + 1))
      \<and> map fst (citation_info st) = citation_keys n
      \<and> (\<forall>j<n. dict_get (citation_info st) (int j + 1)
                  = Some \<lparr>cit_id = int j + 1, source_name = fs ! j,
                          excerpts = excerpts_of results (fs ! j)\<rparr>)
      \<and> citation_counter st = int n + 1)"

text \<open>A small vector store used to run the definitions on concrete inputs.\<close>

definition example_docs :: "document list" where
  "example_docs =
     [\<lparr>page_content = ''beta'', metadata = [''source_name'' \<mapsto> ''b.txt'']\<rparr>,
      \<lparr>page_content = ''alpha'', metadata = [''source_name'' \<mapsto> ''a.txt'']\<rparr>,
      \<lparr>page_content = replicate 310 (CHR ''x''), metadata = [''source_name'' \<mapsto> ''b.txt'']\<rparr>]"

definition example_store :: vectorstore where
  "example_store call =
     (case snd (snd call) of
        ByNotebookAndSource notebook_id source \<Rightarrow>
          (if source = ''a.txt''
           then Inr [\<lparr>page_content = ''alpha'', metadata = [''source_name'' \<mapsto> ''a.txt'']\<rparr>]
           else if source = ''b.txt'' then Inl (Raised OtherException ''timeout'')
           else Inr [])
      | ByNotebookAndSources notebook_id sources \<Rightarrow> Inr example_docs
      | ByNotebook notebook_id \<Rightarrow> Inr example_docs)"

section \<open>Streaming a response (rag\_chain.py, RAGChain.stream\_response)\<close>

text \<open>
  A message and an entry of \<open>full_source_content\<close> are dictionaries from strings to
  strings; \<open>d.get(key, default)\<close> is \<open>get_or\<close>. The chat provider is a collaborator: its
  \<open>stream_chat\<close> is a function from the messages to the fragments it yields and the
  exception, if any, that ends the stream. \<open>json.dumps\<close> is a library function and a
  parameter of the model; the value it is given is a \<open>json\<close> tree.
\<close>

type_synonym message = "string \<rightharpoonup> string"

type_synonym chat_stream = "message list \<Rightarrow> string list \<times> error option"

datatype json = JString string | JArray "json list" | JObject "(string \<times> json) list"

definition get_or :: "message \<Rightarrow> string \<Rightarrow> string \<Rightarrow> string" where
  "get_or d key dflt = (case d key of None \<Rightarrow> dflt | Some v \<Rightarrow> v)"

text \<open>\<open>messages[-1]["content"]\<close>, with the two errors of the two subscripts.\<close>

definition last_content :: "message list \<Rightarrow> error + string" where
  "last_content messages =
     (if messages = [] then Inl (Raised IndexError ''list index out of range'')
      else (case (last messages) ''content'' of
              None \<Rightarrow> Inl (Raised KeyError (quote @ ''content'' @ quote))
            | Some c \<Rightarrow> Inr c))"

definition SYSTEM_PROMPT_before :: string where
  \<open>SYSTEM_PROMPT_before =
     ''You are a helpful AI assistant. Answer the user's question using ONLY the provided context.\<newline>''
   @ ''\<newline>''
   @ ''STRICT CITATION RULES:\<newline>''
   @ ''- The context below contains data from sources marked with IDs like [1], [2].\<newline>''
   @ ''- You must cite every statement using the corresponding [ID].\<newline>''
   @ ''- Look for `--- BEGIN SOURCE [ID] ---`. Content from that block MUST be cited as [ID].\<newline>''
   @ ''- NEVER write the source name or filename in your text.\<newline>''
   @ ''- INCORRECT: "According to video.mp3 [1], vectors are arrows."\<newline>''
   @ ''- CORRECT: "Vectors are defined as arrows in space [1]."\<newline>''
   @ ''\<newline>''
   @ ''FORMATTING RULES:\<newline>''
   @ ''- Use Markdown formatting.\<newline>''
   @ ''- Use **bold** for key concepts.\<newline>''
   @ ''- Use bullet points for lists.\<newline>''
   @ ''- Keep output clean and professional.\<newline>''
   @ ''\<newline>''
   @ ''Context with Citation IDs:\<newline>''\<close>

definition SYSTEM_PROMPT_after :: string where
  "SYSTEM_PROMPT_after =
     ''\<newline>'' @ ''\<newline>'' @ ''Remember: [1], [2] only. No filenames.''"

text \<open>\<open>SYSTEM_PROMPT.format(context=context)\<close>: the template has the one field.\<close>

definition system_prompt :: "string \<Rightarrow> string" where
  "system_prompt context = SYSTEM_PROMPT_before @ context @ SYSTEM_PROMPT_after"

definition full_context_excerpt :: string where
  "full_context_excerpt = ''(Full document context used)''"

definition citations_sentinel :: string where
  "citations_sentinel = ''\<newline>\<newline>---CITATIONS---\<newline>''"

text \<open>\<open>enumerate(xs)\<close> counted from \<open>start\<close>, and the body of the full-context loop.\<close>

fun py_enumerate :: "int \<Rightarrow> 'a list \<Rightarrow> (int \<times> 'a) list" where
  "py_enumerate start [] = []"
| "py_enumerate start (x # xs) = (start, x) # py_enumerate (start + 1) xs"

definition full_context_step ::
  "string list \<times> (int, CitationInfo) pydict \<Rightarrow> int \<times> message
     \<Rightarrow> string list \<times> (int, CitationInfo) pydict" where
  "full_context_step acc entry =
     (let cid = fst entry + 1;
          content = get_or (snd entry) ''content'' '''';
          name = get_or (snd entry) ''name'' ''Unknown''
      in (fst acc @ [source_block cid name content],
          dict_set (snd acc) cid
            \<lparr>cit_id = cid, source_name = name, excerpts = [full_context_excerpt]\<rparr>))"

definition full_context :: "message list \<Rightarrow> retrieved" where
  "full_context full_source_content =
     (let acc = foldl full_context_step ([], []) (py_enumerate 0 full_source_content)
      in (py_join ''\<newline>\<newline>'' (fst acc), snd acc))"

text \<open>
  The two ways to the context: full-context mode when \<open>full_source_content\<close> is present and
  not empty, retrieval with \<open>n_results = 10\<close> otherwise. The searches made are returned
  with the result.
\<close>

definition build_context ::
  "error + vectorstore \<Rightarrow> string \<Rightarrow> string \<Rightarrow> string list option \<Rightarrow> message list option
     \<Rightarrow> search_call list \<times> (error + retrieved)" where
  "build_context get_vectorstore notebook_id user_message selected_sources full_source_content =
     (case full_source_content of
        Some (src # srcs) \<Rightarrow> ([], Inr (full_context (src # srcs)))
      | _ \<Rightarrow> retrieve_context get_vectorstore notebook_id user_message selected_sources 10)"

definition citation_json :: "CitationInfo \<Rightarrow> json" where
  "citation_json info =
     JObject [(''name'', JString (source_name info)),
              (''excerpts'', JArray (map JString (excerpts info)))]"

definition citation_data :: "(int, CitationInfo) pydict \<Rightarrow> (string, json) pydict" where
  "citation_data cits =
     foldl (\<lambda>d item. dict_set d (str_int (fst item)) (citation_json (snd item))) [] cits"

text \<open>
  The generator as the list of what it yields and the exception that ends it, if any,
  together with the searches made. The argument \<open>get_chat_provider\<close> is what
  \<open>self.registry.get_chat_provider()\<close> gives, the provider's \<open>stream_chat\<close> or an exception;
  it is looked up after the context is built, as in the source.
\<close>

record stream_out =
  searches :: "search_call list"
  yielded :: "string list"
  raised :: "error option"

definition stream_response ::
  "(json \<Rightarrow> string) \<Rightarrow> error + vectorstore \<Rightarrow> error + chat_stream \<Rightarrow> string \<Rightarrow> message list
     \<Rightarrow> string list option \<Rightarrow> message list option \<Rightarrow> stream_out" where
  "stream_response json_dumps get_vectorstore get_chat_provider notebook_id messages
       selected_sources full_source_content =
     (case last_content messages of
        Inl e \<Rightarrow> \<lparr>searches = [], yielded = [], raised = Some e\<rparr>
      | Inr user_message \<Rightarrow>
          (case build_context get_vectorstore notebook_id user_message selected_sources
                  full_source_content of
             (calls, Inl e) \<Rightarrow> \<lparr>searches = calls, yielded = [], raised = Some e\<rparr>
           | (calls, Inr (context, cits)) \<Rightarrow>
               (case get_chat_provider of
                  Inl e \<Rightarrow> \<lparr>searches = calls, yielded = [], raised = Some e\<rparr>
                | Inr stream_chat \<Rightarrow>
                    (case stream_chat
                            ([[''role'' \<mapsto> ''system'', ''content'' \<mapsto> system_prompt context]]
                             @ messages) of
                       (chunks, Some e) \<Rightarrow>
                         \<lparr>searches = calls, yielded = chunks, raised = Some e\<rparr>
                     | (chunks, None) \<Rightarrow>
                         \<lparr>searches = calls,
                          yielded = chunks
                            @ (if cits \<noteq> []
                               then [citations_sentinel, json_dumps (JObject (citation_data cits))]
                               else []),
                          raised = None\<rparr>))))"

subsection \<open>The orchestrator boundary (rag.py, stream\_chat\_response)\<close>

text \<open>
  \<^verbatim>\<open>
  try:
      async for chunk in rag_chain.stream_response(...):
          yield chunk
  except Exception as e:
      yield f"Error generating response: {str(e)}"
  \<close>
\<close>

definition stream_chat_response ::
  "(json \<Rightarrow> string) \<Rightarrow> error + vectorstore \<Rightarrow> error + chat_stream \<Rightarrow> string \<Rightarrow> message list
     \<Rightarrow> string list option \<Rightarrow> message list option \<Rightarrow> stream_out" where
  "stream_chat_response json_dumps get_vectorstore get_chat_provider notebook_id messages
       selected_sources full_source_content =
     (let r = stream_response json_dumps get_vectorstore get_chat_provider notebook_id messages
                selected_sources full_source_content
      in case raised r of
           None \<Rightarrow> r
         | Some e \<Rightarrow>
             if is_Exception e
             then r\<lparr>yielded := yielded r @ [''Error generating response: '' @ str_exc e],
                    raised := None\<rparr>
             else r)"

section \<open>Providers and the registry (providers/*.py)\<close>

record ProviderCapabilities =
  supports_chat :: bool
  supports_streaming :: bool
  supports_embeddings :: bool
  supports_vision :: bool
  supports_function_calling :: bool
  max_context_length :: int
  available_chat_models :: "string list"
  available_embedding_models :: "string list"

datatype provider_kind = OllamaProvider | GeminiProvider | AnthropicProvider | OpenAIProvider

definition PROVIDERS :: "(string, provider_kind) pydict" where
  "PROVIDERS =
     [(''ollama'', OllamaProvider), (''gemini'', GeminiProvider),
      (''anthropic'', AnthropicProvider), (''openai'', OpenAIProvider)]"

text \<open>
  The fields \<open>BaseProvider.__init__\<close> sets. (The cached capabilities of the Ollama provider
  and the client handle of the Gemini provider hold no selection state and are left out.)
\<close>

record provider =
  kind :: provider_kind
  api_key :: "string option"
  base_url :: "string option"
  prov_chat_model :: "string option"
  prov_embedding_model :: "string option"

fun capabilities :: "provider_kind \<Rightarrow> ProviderCapabilities" where
  "capabilities OllamaProvider =
     \<lparr>supports_chat = True, supports_streaming = True, supports_embeddings = True,
      supports_vision = True, supports_function_calling = False, max_context_length = 8192,
      available_chat_models = [], available_embedding_models = []\<rparr>"
| "capabilities GeminiProvider =
     \<lparr>supports_chat = True, supports_streaming = True, supports_embeddings = True,
      supports_vision = True, supports_function_calling = True, max_context_length = 1048576,
      available_chat_models = [''gemini-2.5-pro'', ''gemini-3-flash-preview'', ''gemini-3-pro-preview''],
      available_embedding_models = [''gemini-embedding-001'']\<rparr>"
| "capabilities AnthropicProvider =
     \<lparr>supports_chat = True, supports_streaming = True, supports_embeddings = False,
      supports_vision = True, supports_function_calling = True, max_context_length = 200000,
      available_chat_models =
        [''claude-sonnet-4-5-20250929'', ''claude-haiku-4-5-20251001'', ''claude-3-5-sonnet-latest'',
         ''claude-3-5-haiku-latest'', ''claude-3-opus-latest'', ''claude-3-sonnet-20240229'',
         ''claude-3-haiku-20240307''],
      available_embedding_models = []\<rparr>"
| "capabilities OpenAIProvider =
     \<lparr>supports_chat = True, supports_streaming = True, supports_embeddings = True,
      supports_vision = True, supports_function_calling = True, max_context_length = 128000,
      available_chat_models =
        [''gpt-5'', ''gpt-5-nano'', ''gpt-4.1'', ''gpt-4.1-mini'', ''gpt-4o'', ''gpt-4o-mini'',
         ''gpt-4-turbo'', ''gpt-4'', ''gpt-3.5-turbo'', ''o1'', ''o1-mini''],
      available_embedding_models =
        [''text-embedding-3-small'', ''text-embedding-3-large'', ''text-embedding-ada-002'']\<rparr>"

text \<open>
  The constructors. \<open>env\<close> is the process environment read by \<open>os.getenv\<close>; the argument is
  the \<open>api_key\<close> given to the constructor, \<open>None\<close> when it is called without arguments.
\<close>

type_synonym environ = "string \<rightharpoonup> string"

fun construct :: "environ \<Rightarrow> provider_kind \<Rightarrow> string option \<Rightarrow> provider" where
  "construct env OllamaProvider key =
     \<lparr>kind = OllamaProvider, api_key = None,
      base_url = py_or None (Some (get_or env ''OLLAMA_HOST'' ''http://localhost:11434'')),
      prov_chat_model = Some ''llama3'', prov_embedding_model = Some ''nomic-embed-text''\<rparr>"
| "construct env GeminiProvider key =
     \<lparr>kind = GeminiProvider, api_key = py_or key (env ''GOOGLE_API_KEY''), base_url = None,
      prov_chat_model = Some ''gemini-1.5-flash'',
      prov_embedding_model = Some ''gemini-embedding-001''\<rparr>"
| "construct env AnthropicProvider key =
     \<lparr>kind = AnthropicProvider, api_key = py_or key (env ''ANTHROPIC_API_KEY''), base_url = None,
      prov_chat_model = Some ''claude-sonnet-4-5-20250929'', prov_embedding_model = None\<rparr>"
| "construct env OpenAIProvider key =
     \<lparr>kind = OpenAIProvider, api_key = py_or key (env ''OPENAI_API_KEY''),
      base_url = py_or None (env ''OPENAI_BASE_URL''),
      prov_chat_model = Some ''gpt-4.1-mini'',
      prov_embedding_model = Some ''text-embedding-3-small''\<rparr>"

text \<open>
  \<open>PROVIDERS[name](api_key=api_key)\<close>: the constructor of the Ollama provider has no
  \<open>api_key\<close> parameter, so this call is a \<open>TypeError\<close> for it.
\<close>

definition construct_with_api_key :: "environ \<Rightarrow> provider_kind \<Rightarrow> string \<Rightarrow> error + provider" where
  "construct_with_api_key env k key =
     (if k = OllamaProvider
      then Inl (Raised TypeError
                 (''OllamaProvider.__init__() got an unexpected keyword argument ''
                  @ quote @ ''api_key'' @ quote))
      else Inr (construct env k (Some key)))"

subsection \<open>Embedding operations of an adapter\<close>

text \<open>
  The embeddings object a provider builds is made by a library constructor from the
  provider kind, the model name, the API key and the base URL; the constructor and the
  embedding call \<open>aembed_query\<close> are parameters.
\<close>

type_synonym embeddings_args = "provider_kind \<times> string option \<times> string option \<times> string option"

definition get_embeddings ::
  "(embeddings_args \<Rightarrow> error + 'e) \<Rightarrow> provider \<Rightarrow> string option \<Rightarrow> error + 'e" where
  "get_embeddings new_embeddings p model_name =
     (case kind p of
        AnthropicProvider \<Rightarrow>
          Inl (Raised NotImplementedError
                (''Anthropic does not provide embedding models. ''
                 @ ''Use a different provider (Ollama, OpenAI, or Gemini) for embeddings.''))
      | OllamaProvider \<Rightarrow>
          new_embeddings (OllamaProvider, py_or model_name (prov_embedding_model p), None, base_url p)
      | GeminiProvider \<Rightarrow>
          new_embeddings (GeminiProvider, py_or model_name (prov_embedding_model p), api_key p, None)
      | OpenAIProvider \<Rightarrow>
          new_embeddings (OpenAIProvider, py_or model_name (prov_embedding_model p), api_key p,
                if truthy (base_url p) then base_url p else None))"

definition embed_text ::
  "(embeddings_args \<Rightarrow> error + 'e) \<Rightarrow> ('e \<Rightarrow> string \<Rightarrow> error + 'v) \<Rightarrow> provider \<Rightarrow> string
     \<Rightarrow> string option \<Rightarrow> error + 'v" where
  "embed_text new_embeddings aembed_query p txt model_name =
     (case get_embeddings new_embeddings p model_name of
        Inl e \<Rightarrow> Inl e
      | Inr embeddings \<Rightarrow> aembed_query embeddings txt)"

subsection \<open>The registry (providers/registry.py)\<close>

record registry =
  instances :: "(string, provider) pydict"
  chat_provider_name :: string
  chat_model :: "string option"
  embedding_provider_name :: string
  embedding_model :: "string option"

definition registry_init :: registry where
  "registry_init =
     \<lparr>instances = [], chat_provider_name = ''ollama'', chat_model = None,
      embedding_provider_name = ''ollama'', embedding_model = None\<rparr>"

definition repr_list :: "string list \<Rightarrow> string" where
  "repr_list xs = ''['' @ py_join '', '' (map (\<lambda>s. quote @ s @ quote) xs) @ '']''"

text \<open>
  Every operation returns the registry it leaves behind, also when it raises: the
  instance cache may have grown by then.
\<close>

definition get_provider :: "environ \<Rightarrow> registry \<Rightarrow> string \<Rightarrow> (error + provider) \<times> registry" where
  "get_provider env reg name =
     (case dict_get PROVIDERS name of
        None \<Rightarrow>
          (Inl (Raised ValueError
                 (''Unknown provider: '' @ name @ ''. Available: ''
                  @ repr_list (map fst PROVIDERS))), reg)
      | Some k \<Rightarrow>
          (case dict_get (instances reg) name of
             Some p \<Rightarrow> (Inr p, reg)
           | None \<Rightarrow>
               (Inr (construct env k None),
                reg\<lparr>instances := dict_set (instances reg) name (construct env k None)\<rparr>)))"

definition set_chat_provider ::
  "environ \<Rightarrow> registry \<Rightarrow> string \<Rightarrow> string option \<Rightarrow> error option \<times> registry" where
  "set_chat_provider env reg provider_name model_name =
     (if dict_get PROVIDERS provider_name = None
      then (Some (Raised ValueError (''Unknown provider: '' @ provider_name)), reg)
      else (let reg1 = reg\<lparr>chat_provider_name := provider_name, chat_model := model_name\<rparr> in
            if truthy model_name
            then (case get_provider env reg1 provider_name of
                    (Inl e, reg2) \<Rightarrow> (Some e, reg2)
                  | (Inr p, reg2) \<Rightarrow>
                      (None, reg2\<lparr>instances := dict_set (instances reg2) provider_name
                                     (p\<lparr>prov_chat_model := model_name\<rparr>)\<rparr>))
            else (None, reg1)))"

definition set_embedding_provider ::
  "environ \<Rightarrow> registry \<Rightarrow> string \<Rightarrow> string option \<Rightarrow> error option \<times> registry" where
  "set_embedding_provider env reg provider_name model_name =
     (if dict_get PROVIDERS provider_name = None
      then (Some (Raised ValueError (''Unknown provider: '' @ provider_name)), reg)
      else (case get_provider env reg provider_name of
              (Inl e, reg1) \<Rightarrow> (Some e, reg1)
            | (Inr p, reg1) \<Rightarrow>
                if \<not> supports_embeddings (capabilities (kind p))
                then (Some (Raised ValueError
                             (''Provider '' @ provider_name @ '' does not support embeddings'')),
                      reg1)
                else (let reg2 = reg1\<lparr>embedding_provider_name := provider_name,
                                       embedding_model := model_name\<rparr> in
                      if truthy model_name
                      then (None, reg2\<lparr>instances := dict_set (instances reg2) provider_name
                                          (p\<lparr>prov_embedding_model := model_name\<rparr>)\<rparr>)
                      else (None, reg2))))"

text \<open>
  The settings dictionary: the API keys in their order (absent means empty) and the four
  optional strings. The first loop of \<open>configure_from_settings\<close> sets or pre-creates the
  instances that have a key.
\<close>

record settings =
  settings_api_keys :: "(string, string) pydict"
  settings_chat_provider :: "string option"
  settings_chat_model :: "string option"
  settings_embedding_provider :: "string option"
  settings_embedding_model :: "string option"

fun apply_api_keys ::
  "environ \<Rightarrow> registry \<Rightarrow> (string, string) pydict \<Rightarrow> error option \<times> registry" where
  "apply_api_keys env reg [] = (None, reg)"
| "apply_api_keys env reg ((provider_name, key) # rest) =
     (case dict_get (instances reg) provider_name of
        Some p \<Rightarrow>
          apply_api_keys env
            (reg\<lparr>instances := dict_set (instances reg) provider_name (p\<lparr>api_key := Some key\<rparr>)\<rparr>)
            rest
      | None \<Rightarrow>
          (case dict_get PROVIDERS provider_name of
             None \<Rightarrow> apply_api_keys env reg rest
           | Some k \<Rightarrow>
               (case construct_with_api_key env k key of
                  Inl e \<Rightarrow> (Some e, reg)
                | Inr p \<Rightarrow>
                    apply_api_keys env
                      (reg\<lparr>instances := dict_set (instances reg) provider_name p\<rparr>) rest)))"

definition option_or :: "string option \<Rightarrow> string \<Rightarrow> string" where
  "option_or a dflt = (case a of None \<Rightarrow> dflt | Some v \<Rightarrow> v)"

definition configure_from_settings ::
  "environ \<Rightarrow> registry \<Rightarrow> settings \<Rightarrow> error option \<times> registry" where
  "configure_from_settings env reg s =
     (case apply_api_keys env reg (settings_api_keys s) of
        (Some e, reg1) \<Rightarrow> (Some e, reg1)
      | (None, reg1) \<Rightarrow>
          (case set_chat_provider env reg1 (option_or (settings_chat_provider s) ''ollama'')
                  (settings_chat_model s) of
             (Some e, reg2) \<Rightarrow> (Some e, reg2)
           | (None, reg2) \<Rightarrow>
               (case set_embedding_provider env reg2
                       (option_or (settings_embedding_provider s) ''ollama'')
                       (settings_embedding_model s) of
                  (None, reg3) \<Rightarrow> (None, reg3)
                | (Some e, reg3) \<Rightarrow>
                    if exc_class_of e = ValueError
                    then set_embedding_provider env reg3 ''ollama'' (settings_embedding_model s)
                    else (Some e, reg3))))"

text \<open>
  A registry is well formed when every cached instance is of the class registered under
  its name; the initial registry is, and the operations keep it so.
\<close>

definition registry_wf :: "registry \<Rightarrow> bool" where
  "registry_wf reg =
     list_all (\<lambda>entry. dict_get PROVIDERS (fst entry) = Some (kind (snd entry))) (instances reg)"

section \<open>Notions used to state the registry and streaming properties\<close>

text \<open>
  Two registries have the same selection when the four selection fields agree (the
  instance cache may differ).
\<close>

definition same_selection :: "registry \<Rightarrow> registry \<Rightarrow> bool" where
  "same_selection reg reg' \<longleftrightarrow>
     chat_provider_name reg' = chat_provider_name reg \<and> chat_model reg' = chat_model reg
     \<and> embedding_provider_name reg' = embedding_provider_name reg
     \<and> embedding_model reg' = embedding_model reg"

text \<open>
  What one pass of the full-context loop appends for the enumerated entry \<open>(i, src)\<close>: the
  context block and the citation under the key \<open>i + 1\<close>.
\<close>

definition full_block :: "int \<times> message \<Rightarrow> string" where
  "full_block entry =
     source_block (fst entry + 1) (get_or (snd entry) ''name'' ''Unknown'')
       (get_or (snd entry) ''content'' '''')"

definition full_citation :: "int \<times> message \<Rightarrow> int \<times> CitationInfo" where
  "full_citation entry =
     (fst entry + 1,
      \<lparr>cit_id = fst entry + 1, source_name = get_or (snd entry) ''name'' ''Unknown'',
       excerpts = [full_context_excerpt]\<rparr>)"

subsection \<open>Concrete inputs\<close>

text \<open>
  An empty environment; settings that name the Anthropic provider for embeddings, once
  with a registered chat provider and an API key, once with a chat provider that is not
  registered.
\<close>

definition example_env :: environ where
  "example_env = Map.empty"

definition example_good_settings :: settings where
  "example_good_settings =
     \<lparr>settings_api_keys = [(''openai'', ''sk-test'')], settings_chat_provider = Some ''openai'',
      settings_chat_model = Some ''gpt-4o'', settings_embedding_provider = Some ''anthropic'',
      settings_embedding_model = Some ''nomic-embed-text''\<rparr>"

definition example_settings :: settings where
  "example_settings =
     \<lparr>settings_api_keys = [], settings_chat_provider = Some ''bogus'',
      settings_chat_model = Some ''llama3'', settings_embedding_provider = Some ''anthropic'',
      settings_embedding_model = Some ''nomic-embed-text''\<rparr>"

text \<open>
  A conversation of one user message; the two sources \<open>A\<close> with content \<open>foo\<close> and \<open>B\<close> with
  content \<open>bar\<close> for full-context mode; a chat provider that yields two fragments, and one
  that raises after them; a stand-in for \<open>json.dumps\<close>; and a vector store that cannot be
  reached.
\<close>

definition example_messages :: "message list" where
  "example_messages = [[''role'' \<mapsto> ''user'', ''content'' \<mapsto> ''What is X?'']]"

definition example_full :: "message list" where
  "example_full =
     [[''name'' \<mapsto> ''A'', ''content'' \<mapsto> ''foo''], [''name'' \<mapsto> ''B'', ''content'' \<mapsto> ''bar'']]"


definition example_failing_chat :: chat_stream where
  "example_failing_chat messages = ([''Hel'', ''lo''], Some (Raised OtherException ''boom''))"

definition example_dumps :: "json \<Rightarrow> string" where
  "example_dumps j = (case j of JObject items \<Rightarrow> concat (map fst items) | _ \<Rightarrow> [])"

definition no_store :: "error + vectorstore" where
  "no_store = Inl (Raised OtherException ''no vector store'')"

section \<open>Properties of the legacy chunking\<close>

declare chunks_from.simps [simp del]

lemma stride_pos: "0 < chunk_size - overlap"
  by (simp add: chunk_size_def overlap_def)

lemma stride_le: "chunk_size - overlap \<le> chunk_size"
  by simp

lemma chunks_from_unfold:
  "i < length c \<Longrightarrow>
     chunks_from i c = py_slice c i (i + chunk_size) # chunks_from (i + (chunk_size - overlap)) c"
  by (subst chunks_from.simps) simp

lemma chunks_from_done: "\<not> i < length c \<Longrightarrow> chunks_from i c = []"
  by (subst chunks_from.simps) simp

lemma ceil_step_gen:
  fixes n i s :: nat
  assumes "0 < s" "i < n"
  shows "Suc ((n - (i + s) + (s - 1)) div s) = (n - i + (s - 1)) div s"
proof (cases "i + s \<le> n")
  case True
  then have "n - i + (s - 1) = (n - (i + s) + (s - 1)) + s" by linarith
  then have "(n - i + (s - 1)) div s = ((n - (i + s) + (s - 1)) + s) div s" by (rule arg_cong)
  also have "\<dots> = Suc ((n - (i + s) + (s - 1)) div s)"
    using assms(1) by (simp only: div_add_self2)
  finally show ?thesis by (rule sym)
next
  case False
  then have a: "n - (i + s) = 0" by linarith
  obtain r where r: "n - i + (s - 1) = r + s" "r < s"
  proof
    show "n - i + (s - 1) = (n - i - 1) + s" using assms by linarith
    show "n - i - 1 < s" using False assms by linarith
  qed
  have "(r + s) div s = 1" using assms(1) r(2) by (simp add: div_add_self2)
  then have "(n - i + (s - 1)) div s = 1" using r(1) by simp
  moreover have "(s - 1) div s = 0" using assms(1) by simp
  ultimately show ?thesis using a by simp
qed

lemma chunks_from_length:
  "length (chunks_from i c) =
     (length c - i + (chunk_size - overlap - 1)) div (chunk_size - overlap)"
proof (induction i c rule: chunks_from.induct)
  case (1 i c)
  show ?case
  proof (cases "i < length c")
    case True
    have "length (chunks_from i c) = Suc (length (chunks_from (i + (chunk_size - overlap)) c))"
      by (simp add: chunks_from_unfold [OF True])
    also have "\<dots> = Suc ((length c - (i + (chunk_size - overlap)) + (chunk_size - overlap - 1))
                          div (chunk_size - overlap))"
      using 1 [OF True] by simp
    also have "\<dots> = (length c - i + (chunk_size - overlap - 1)) div (chunk_size - overlap)"
      using ceil_step_gen [OF stride_pos True] by simp
    finally show ?thesis .
  next
    case False
    then have "length c - i = 0" by simp
    moreover have "(chunk_size - overlap - 1) div (chunk_size - overlap) = 0"
      using stride_pos by simp
    ultimately show ?thesis using False by (simp add: chunks_from_done)
  qed
qed

lemma chunks_from_bound:
  "x \<in> set (chunks_from i c) \<Longrightarrow> length x \<le> chunk_size"
proof (induction i c rule: chunks_from.induct)
  case (1 i c)
  show ?case
  proof (cases "i < length c")
    case True
    then show ?thesis
      using 1 by (auto simp: chunks_from_unfold py_slice_def)
  next
    case False
    then show ?thesis using 1(2) by (simp add: chunks_from_done)
  qed
qed

lemma chunks_from_nth:
  "j < length (chunks_from i c) \<Longrightarrow>
     chunks_from i c ! j =
       py_slice c (i + j * (chunk_size - overlap)) (i + j * (chunk_size - overlap) + chunk_size)"
proof (induction i c arbitrary: j rule: chunks_from.induct)
  case (1 i c)
  show ?case
  proof (cases "i < length c")
    case True
    note e = chunks_from_unfold [OF True]
    show ?thesis
    proof (cases j)
      case 0
      then show ?thesis using e by simp
    next
      case (Suc k)
      then have "k < length (chunks_from (i + (chunk_size - overlap)) c)" using 1(2) e by simp
      then have "chunks_from (i + (chunk_size - overlap)) c ! k =
          py_slice c (i + (chunk_size - overlap) + k * (chunk_size - overlap))
                     (i + (chunk_size - overlap) + k * (chunk_size - overlap) + chunk_size)"
        by (rule 1(1) [OF True])
      then show ?thesis using e Suc by (simp add: add.assoc)
    qed
  next
    case False
    then show ?thesis using 1(2) by (simp add: chunks_from_done)
  qed
qed

lemma chunks_from_cover:
  "concat (map (take (chunk_size - overlap)) (chunks_from i c)) = drop i c"
proof (induction i c rule: chunks_from.induct)
  case (1 i c)
  show ?case
  proof (cases "i < length c")
    case True
    have "concat (map (take (chunk_size - overlap)) (chunks_from i c))
            = take (chunk_size - overlap) (drop i c) @ drop (i + (chunk_size - overlap)) c"
      using 1 [OF True] by (simp add: chunks_from_unfold [OF True] py_slice_def min_def)
    also have "\<dots> = take (chunk_size - overlap) (drop i c) @ drop (chunk_size - overlap) (drop i c)"
      by (simp only: drop_drop add.commute)
    also have "\<dots> = drop i c"
      by (rule append_take_drop_id)
    finally show ?thesis .
  next
    case False
    then show ?thesis by (simp add: chunks_from_done)
  qed
qed


lemma chunks_from_overlap:
  assumes "Suc j < length (chunks_from 0 c)"
  shows "drop (chunk_size - overlap) (chunks_from 0 c ! j) = take overlap (chunks_from 0 c ! Suc j)"
proof -
  have j: "j < length (chunks_from 0 c)" using assms by simp
  have ov: "chunk_size - (chunk_size - overlap) = overlap" "min overlap chunk_size = overlap"
    by (simp_all add: chunk_size_def overlap_def)
  have "drop (chunk_size - overlap) (chunks_from 0 c ! j)
          = take overlap (drop (chunk_size - overlap + j * (chunk_size - overlap)) c)"
    by (simp add: chunks_from_nth [OF j] py_slice_def drop_take ov)
  moreover have "take overlap (chunks_from 0 c ! Suc j)
          = take overlap (drop (chunk_size - overlap + j * (chunk_size - overlap)) c)"
    by (simp add: chunks_from_nth [OF assms] py_slice_def ov)
  ultimately show ?thesis by simp
qed

lemma chunks_from_nth_length:
  assumes "j < length (chunks_from 0 c)"
  shows "length (chunks_from 0 c ! j) = min chunk_size (length c - j * (chunk_size - overlap))"
  by (simp add: chunks_from_nth [OF assms] py_slice_def min.commute)

lemma consts_num: "chunk_size - overlap - 1 = 449" "chunk_size - overlap = 450"
  "chunk_size = 500" "overlap = 50"
  by (simp_all add: chunk_size_def overlap_def)

text \<open>
  Claim C6, as stated, at a content of 901 characters (longer than one window): the loop
  starts a window at 0, 450 and 900, so it produces three chunks, while the formula
  \<open>ceil((len - 50) / 450)\<close> gives two.
\<close>

theorem legacy_chunks_count_counterexample:
  "chunk_size < length (replicate 901 (CHR ''a''))
   \<and> length (legacy_chunks (replicate 901 (CHR ''a''))) = 3
   \<and> spec_chunk_count (length (replicate 901 (CHR ''a''))) = 2"
proof -
  have l: "length (replicate 901 (CHR ''a'')) = 901" by (rule length_replicate)
  have "length (legacy_chunks (replicate 901 (CHR ''a''))) = 3"
    unfolding legacy_chunks_def chunks_from_length l by (simp add: consts_num)
  moreover have "spec_chunk_count 901 = 2"
    unfolding spec_chunk_count_def by (simp add: consts_num)
  moreover have "chunk_size < 901"
    by (simp add: consts_num)
  ultimately show ?thesis unfolding l by simp
qed

text \<open>
  Claim C6, amended: for every content the legacy chunking path produces
  \<open>ceil(len / 450)\<close> chunks; chunk \<open>j\<close> is the window \<open>content[450 j : 450 j + 500]\<close>, so
  no chunk is longer than 500 characters; what chunk \<open>j\<close> holds beyond its first 450
  characters is the first 50 characters of chunk \<open>j + 1\<close> (all of that chunk when it is
  shorter than 50); and the first 450 characters of every chunk, concatenated, are the
  content again, so the windows leave no gap.
\<close>

theorem legacy_chunks_windows:
  "length (legacy_chunks content) = (length content + 449) div 450
   \<and> (\<forall>j < length (legacy_chunks content).
         legacy_chunks content ! j = py_slice content (j * 450) (j * 450 + 500)
         \<and> length (legacy_chunks content ! j) \<le> 500)
   \<and> (\<forall>j. Suc j < length (legacy_chunks content) \<longrightarrow>
         drop 450 (legacy_chunks content ! j) = take 50 (legacy_chunks content ! Suc j)
         \<and> length (take 50 (legacy_chunks content ! Suc j)) = min 50 (length content - Suc j * 450))
   \<and> concat (map (take 450) (legacy_chunks content)) = content"
proof -
  have len: "length (legacy_chunks content) = (length content + 449) div 450"
    using chunks_from_length [of 0 content] unfolding legacy_chunks_def consts_num by simp
  have nth: "legacy_chunks content ! j = py_slice content (j * 450) (j * 450 + 500)
         \<and> length (legacy_chunks content ! j) \<le> 500"
    if "j < length (legacy_chunks content)" for j
    using chunks_from_nth [of j 0 content] chunks_from_bound [of "legacy_chunks content ! j" 0 content]
      that nth_mem [OF that]
    unfolding legacy_chunks_def consts_num by simp
  have ov: "drop 450 (legacy_chunks content ! j) = take 50 (legacy_chunks content ! Suc j)
         \<and> length (take 50 (legacy_chunks content ! Suc j)) = min 50 (length content - Suc j * 450)"
    if "Suc j < length (legacy_chunks content)" for j
    using chunks_from_overlap [of j content] chunks_from_nth_length [of "Suc j" content] that
    unfolding legacy_chunks_def consts_num by simp
  have cov: "concat (map (take 450) (legacy_chunks content)) = content"
    using chunks_from_cover [of 0 content] unfolding legacy_chunks_def consts_num by simp
  show ?thesis using len nth ov cov by blast
qed

theorem legacy_chunks_windows_witness:
  "Suc 1 < length (legacy_chunks (replicate 901 (CHR ''a'')))
   \<and> legacy_chunks (replicate 901 (CHR ''a'')) ! 1
       = py_slice (replicate 901 (CHR ''a'')) (1 * 450) (1 * 450 + 500)
   \<and> drop 450 (legacy_chunks (replicate 901 (CHR ''a'')) ! 1)
       = take 50 (legacy_chunks (replicate 901 (CHR ''a'')) ! Suc 1)
   \<and> length (take 50 (legacy_chunks (replicate 901 (CHR ''a'')) ! Suc 1)) = 1
   \<and> concat (map (take 450) (legacy_chunks (replicate 901 (CHR ''a''))))
       = replicate 901 (CHR ''a'')"
proof -
  let ?c = "replicate 901 (CHR ''a'')"
  note w = legacy_chunks_windows [of ?c]
  have l: "length ?c = 901" by (rule length_replicate)
  have n: "length (legacy_chunks ?c) = 3" using w unfolding l by simp
  then have a: "Suc 1 < length (legacy_chunks ?c)" "1 < length (legacy_chunks ?c)" by simp_all
  have m: "min 50 (length ?c - Suc 1 * 450) = 1" unfolding l by simp
  from w a m show ?thesis by metis
qed

section \<open>Properties of the retrieval and of the citation assembly\<close>

lemma dict_get_set: "dict_get (dict_set d k v) k' = (if k' = k then Some v else dict_get d k')"
proof -
  have "map_of (map (\<lambda>(k', v'). if k' = k then (k', v) else (k', v')) d) k'
          = (if k' = k then (if map_of d k = None then None else Some v) else map_of d k')"
    by (induction d) auto
  then show ?thesis by (auto simp: dict_get_def dict_set_def map_add_def split: option.splits)
qed

lemma dict_keys_set:
  "map fst (dict_set d k v) = (if dict_get d k = None then map fst d @ [k] else map fst d)"
proof -
  have "map fst (map (\<lambda>(k', v'). if k' = k then (k', v) else (k', v')) d) = map fst d"
    by (induction d) auto
  then show ?thesis by (simp add: dict_get_def dict_set_def)
qed

lemma dict_get_None: "dict_get d k = None \<longleftrightarrow> k \<notin> set (map fst d)"
  by (simp add: dict_get_def map_of_eq_None_iff)

lemma first_seen_Nil: "first_seen [] = []"
  by simp

lemma set_first_seen: "set (first_seen xs) = set xs"
  by (induction xs) auto

lemma first_seen_snoc:
  "first_seen (xs @ [x]) = (if x \<in> set xs then first_seen xs else first_seen xs @ [x])"
proof (induction xs)
  case Nil
  then show ?case by simp
next
  case (Cons a xs)
  have "filter (\<lambda>y. y \<noteq> x) (first_seen xs) = first_seen xs" if "x \<notin> set xs"
    using that set_first_seen [of xs] by (auto simp: filter_id_conv)
  then show ?case using Cons by auto
qed

lemma distinct_first_seen: "distinct (first_seen xs)"
  by (induction xs) (auto simp: set_first_seen)

lemma length_first_seen: "length (first_seen xs) = card (set xs)"
  using distinct_card [OF distinct_first_seen, of xs] by (simp add: set_first_seen)

lemma excerpts_of_snoc:
  "excerpts_of (xs @ [x]) name =
     excerpts_of xs name @ (if doc_source x = name then [make_excerpt (page_content x)] else [])"
  by (simp add: excerpts_of_def)

lemma excerpts_of_fresh: "name \<notin> doc_source ` set xs \<Longrightarrow> excerpts_of xs name = []"
  by (auto simp: excerpts_of_def filter_empty_conv)

lemma assemble_snoc:
  "assemble st (xs @ [x]) =
     (case assemble st xs of Inl e \<Rightarrow> Inl e | Inr st' \<Rightarrow> assemble_step st' x)"
  by (induction xs arbitrary: st) (auto split: sum.splits)

lemma assembled_init: "assembled [] assembly_init"
  by (simp add: assembled_def assembly_init_def first_seen_Nil citation_keys_def)

lemma assemble_step_seen:
  assumes inv: "assembled xs st" and seen: "doc_source x \<in> doc_source ` set xs"
  shows "\<exists>st'. assemble_step st x = Inr st' \<and> assembled (xs @ [x]) st'"
proof -
  define fs where "fs = first_seen (map doc_source xs)"
  define n where "n = length fs"
  define s where "s = doc_source x"
  have fs': "first_seen (map doc_source (xs @ [x])) = fs"
    using seen by (simp add: first_seen_snoc fs_def)
  have dfs: "distinct fs" by (simp add: fs_def distinct_first_seen)
  from inv have a: "map fst (source_map st) = fs"
    and a': "\<And>j. j < n \<Longrightarrow> dict_get (source_map st) (fs ! j) = Some (int j + 1)"
    and b: "map fst (citation_info st) = citation_keys n"
    and b': "\<And>j. j < n \<Longrightarrow> dict_get (citation_info st) (int j + 1)
                  = Some \<lparr>cit_id = int j + 1, source_name = fs ! j,
                          excerpts = excerpts_of xs (fs ! j)\<rparr>"
    and e: "citation_counter st = int n + 1"
    by (simp_all add: assembled_def Let_def fs_def n_def)
  have "s \<in> set fs" using seen by (simp add: fs_def set_first_seen s_def)
  then obtain j where j: "j < n" "fs ! j = s" by (auto simp: in_set_conv_nth n_def)
  have g1: "dict_get (source_map st) s = Some (int j + 1)" using a' [OF j(1)] j(2) by simp
  then have as: "assign_citation st s = st" by (simp add: assign_citation_def)
  define info where "info = \<lparr>cit_id = int j + 1, source_name = s, excerpts = excerpts_of xs s\<rparr>"
  have g2: "dict_get (citation_info st) (int j + 1) = Some info"
    using b' [OF j(1)] j(2) by (simp add: info_def)
  define st' where "st' = st\<lparr>citation_info := dict_set (citation_info st) (int j + 1)
                           (info\<lparr>excerpts := excerpts info @ [make_excerpt (page_content x)]\<rparr>),
                        context_parts := context_parts st
                           @ [source_block (int j + 1) s (page_content x)]\<rparr>"
  have step: "assemble_step st x = Inr st'"
    by (simp add: assemble_step_def Let_def s_def [symmetric] as g1 g2 st'_def)
  have k: "map fst (citation_info st') = citation_keys n"
    using b g2 by (simp add: st'_def dict_keys_set)
  have l: "dict_get (citation_info st') (int i + 1)
                  = Some \<lparr>cit_id = int i + 1, source_name = fs ! i,
                          excerpts = excerpts_of (xs @ [x]) (fs ! i)\<rparr>" if "i < n" for i
  proof (cases "i = j")
    case True
    then show ?thesis
      using j by (simp add: st'_def dict_get_set info_def excerpts_of_snoc s_def)
  next
    case False
    then have "fs ! i \<noteq> s" using dfs j that by (auto simp: nth_eq_iff_index_eq n_def)
    then show ?thesis
      using False b' [OF that] by (simp add: st'_def dict_get_set excerpts_of_snoc s_def)
  qed
  have "assembled (xs @ [x]) st'"
    unfolding assembled_def Let_def fs' n_def [symmetric]
    using a a' k l e by (simp add: st'_def)
  with step show ?thesis by blast
qed

lemma assemble_step_fresh:
  assumes inv: "assembled xs st" and fresh: "doc_source x \<notin> doc_source ` set xs"
  shows "\<exists>st'. assemble_step st x = Inr st' \<and> assembled (xs @ [x]) st'"
proof -
  define fs where "fs = first_seen (map doc_source xs)"
  define n where "n = length fs"
  define s where "s = doc_source x"
  have fs': "first_seen (map doc_source (xs @ [x])) = fs @ [s]"
    using fresh by (simp add: first_seen_snoc fs_def s_def)
  have dfs: "distinct fs" by (simp add: fs_def distinct_first_seen)
  have sfs: "s \<notin> set fs" using fresh by (simp add: fs_def set_first_seen s_def)
  from inv have a: "map fst (source_map st) = fs"
    and a': "\<And>j. j < n \<Longrightarrow> dict_get (source_map st) (fs ! j) = Some (int j + 1)"
    and b: "map fst (citation_info st) = citation_keys n"
    and b': "\<And>j. j < n \<Longrightarrow> dict_get (citation_info st) (int j + 1)
                  = Some \<lparr>cit_id = int j + 1, source_name = fs ! j,
                          excerpts = excerpts_of xs (fs ! j)\<rparr>"
    and e: "citation_counter st = int n + 1"
    by (simp_all add: assembled_def Let_def fs_def n_def)
  have g1: "dict_get (source_map st) s = None" using a sfs by (simp add: dict_get_None)
  have "int n + 1 \<notin> set (citation_keys n)" by (auto simp: citation_keys_def)
  then have g2: "dict_get (citation_info st) (int n + 1) = None"
    using b by (simp add: dict_get_None)
  define new where "new = \<lparr>cit_id = int n + 1, source_name = s, excerpts = []\<rparr>"
  define st1 where "st1 = st\<lparr>source_map := dict_set (source_map st) s (int n + 1),
              citation_info := dict_set (citation_info st) (int n + 1) new,
              citation_counter := int n + 1 + 1\<rparr>"
  have as: "assign_citation st s = st1"
    by (simp add: assign_citation_def g1 e st1_def new_def)
  define st' where "st' = st1\<lparr>citation_info := dict_set (citation_info st1) (int n + 1)
                           (new\<lparr>excerpts := excerpts new @ [make_excerpt (page_content x)]\<rparr>),
                        context_parts := context_parts st1
                           @ [source_block (int n + 1) s (page_content x)]\<rparr>"
  have h1: "dict_get (source_map st1) s = Some (int n + 1)"
    by (simp add: st1_def dict_get_set)
  have h2: "dict_get (citation_info st1) (int n + 1) = Some new"
    by (simp add: st1_def dict_get_set)
  have step: "assemble_step st x = Inr st'"
    unfolding assemble_step_def Let_def s_def [symmetric] as
    by (simp add: h1 h2 st'_def)
  have k1: "map fst (source_map st') = fs @ [s]"
    using a g1 by (simp add: st'_def st1_def dict_keys_set)
  have k2: "map fst (citation_info st') = citation_keys (Suc n)"
    using b g2 by (simp add: st'_def st1_def dict_keys_set dict_get_set citation_keys_def)
  have l1: "dict_get (source_map st') ((fs @ [s]) ! i) = Some (int i + 1)" if "i < Suc n" for i
  proof (cases "i = n")
    case True
    then show ?thesis by (simp add: st'_def st1_def dict_get_set n_def)
  next
    case False
    then have i: "i < n" using that by simp
    then have "fs ! i \<noteq> s" using sfs by (auto simp: n_def)
    then show ?thesis
      using a' [OF i] i by (simp add: st'_def st1_def dict_get_set nth_append n_def)
  qed
  have l2: "dict_get (citation_info st') (int i + 1)
                  = Some \<lparr>cit_id = int i + 1, source_name = (fs @ [s]) ! i,
                          excerpts = excerpts_of (xs @ [x]) ((fs @ [s]) ! i)\<rparr>"
    if "i < Suc n" for i
  proof (cases "i = n")
    case True
    have "excerpts_of xs s = []" using fresh by (simp add: excerpts_of_fresh s_def)
    then show ?thesis
      using True
      by (simp add: st'_def st1_def dict_get_set n_def new_def excerpts_of_snoc s_def [symmetric])
  next
    case False
    then have i: "i < n" using that by simp
    then have "fs ! i \<noteq> s" using sfs by (auto simp: n_def)
    then show ?thesis
      using b' [OF i] i False
      by (simp add: st'_def st1_def dict_get_set nth_append n_def excerpts_of_snoc
                    s_def [symmetric])
  qed
  have c: "citation_counter st' = int (Suc n) + 1" by (simp add: st'_def st1_def)
  have "assembled (xs @ [x]) st'"
    unfolding assembled_def Let_def fs'
    using k1 k2 l1 l2 c by (simp add: n_def)
  with step show ?thesis by blast
qed

lemma assemble_total:
  "\<exists>st. assemble assembly_init results = Inr st \<and> assembled results st"
proof (induction results rule: rev_induct)
  case Nil
  then show ?case by (simp add: assembled_init)
next
  case (snoc x xs)
  then obtain st where st: "assemble assembly_init xs = Inr st" "assembled xs st" by blast
  have "\<exists>st'. assemble_step st x = Inr st' \<and> assembled (xs @ [x]) st'"
    using assemble_step_seen [OF st(2)] assemble_step_fresh [OF st(2)] by blast
  then show ?case using st(1) by (simp add: assemble_snoc)
qed

lemma dict_values_by_key:
  "distinct (map fst d) \<Longrightarrow> map snd d = map (\<lambda>k. the (dict_get d k)) (map fst d)"
proof (induction d)
  case Nil
  then show ?case by simp
next
  case (Cons a d)
  have "dict_get (a # d) k = dict_get d k" if "k \<in> set (map fst d)" for k
  proof -
    have "fst a \<notin> set (map fst d)" using Cons.prems by simp
    then have "k \<noteq> fst a" using that by blast
    then show ?thesis by (cases a) (simp add: dict_get_def)
  qed
  then have "map (\<lambda>k. the (dict_get (a # d) k)) (map fst d) = map (\<lambda>k. the (dict_get d k)) (map fst d)"
    by (intro map_cong) simp_all
  moreover have "the (dict_get (a # d) (fst a)) = snd a"
    by (cases a) (simp add: dict_get_def)
  ultimately show ?case using Cons by simp
qed

lemma distinct_citation_keys: "distinct (citation_keys n)"
  by (simp add: citation_keys_def distinct_map inj_on_def)

lemma assembled_entries:
  assumes "assembled results st"
  shows "map snd (citation_info st) =
           map (\<lambda>j. \<lparr>cit_id = int j + 1, source_name = first_seen (map doc_source results) ! j,
                      excerpts = excerpts_of results (first_seen (map doc_source results) ! j)\<rparr>)
               [0..<card (doc_source ` set results)]"
proof -
  define fs where "fs = first_seen (map doc_source results)"
  define n where "n = length fs"
  have n: "n = card (doc_source ` set results)" by (simp add: n_def fs_def length_first_seen)
  from assms have b: "map fst (citation_info st) = citation_keys n"
    and b': "\<And>j. j < n \<Longrightarrow> dict_get (citation_info st) (int j + 1)
                  = Some \<lparr>cit_id = int j + 1, source_name = fs ! j,
                          excerpts = excerpts_of results (fs ! j)\<rparr>"
    by (simp_all add: assembled_def Let_def fs_def n_def)
  have "map snd (citation_info st) = map (\<lambda>k. the (dict_get (citation_info st) k)) (citation_keys n)"
    using dict_values_by_key [of "citation_info st"] b distinct_citation_keys by simp
  also have "\<dots> = map (\<lambda>j. the (dict_get (citation_info st) (int j + 1))) [0..<n]"
    by (simp add: citation_keys_def comp_def)
  also have "\<dots> = map (\<lambda>j. \<lparr>cit_id = int j + 1, source_name = fs ! j,
                          excerpts = excerpts_of results (fs ! j)\<rparr>) [0..<n]"
    by (intro map_cong) (simp_all add: b')
  finally show ?thesis by (simp add: fs_def n)
qed

lemma retrieve_context_assembled:
  assumes "retrieve_results vs notebook_id query selected_sources n_results = (calls, Inr results)"
  shows "\<exists>st. assemble assembly_init results = Inr st \<and> assembled results st
          \<and> retrieve_context (Inr vs) notebook_id query selected_sources n_results
              = (calls, Inr (py_join ''\<newline>\<newline>'' (context_parts st), citation_info st))"
proof -
  obtain st where st: "assemble assembly_init results = Inr st" "assembled results st"
    using assemble_total by blast
  then show ?thesis using assms by (simp add: retrieve_context_def)
qed

text \<open>
  Claim C1: when the retrieval of \<open>retrieve_context\<close> yields the result list \<open>results\<close> with
  \<open>K\<close> distinct source names, the citation dictionary has the keys \<open>1..K\<close> in this order,
  every entry carries its key as its id, and the source names of the entries are the
  distinct source names of the results in the order of their first occurrence: one entry
  for each source name.
\<close>

theorem citation_ids_dense:
  assumes "retrieve_results vs notebook_id query selected_sources n_results = (calls, Inr results)"
  shows "\<exists>context cits.
           retrieve_context (Inr vs) notebook_id query selected_sources n_results
             = (calls, Inr (context, cits))
         \<and> map fst cits = map (\<lambda>j. int j + 1) [0..<card (doc_source ` set results)]
         \<and> map (cit_id \<circ> snd) cits = map fst cits
         \<and> map (source_name \<circ> snd) cits = first_seen (map doc_source results)
         \<and> distinct (map (source_name \<circ> snd) cits)
         \<and> set (map (source_name \<circ> snd) cits) = doc_source ` set results"
proof -
  obtain st where st: "assembled results st"
      "retrieve_context (Inr vs) notebook_id query selected_sources n_results
              = (calls, Inr (py_join ''\<newline>\<newline>'' (context_parts st), citation_info st))"
    using retrieve_context_assembled [OF assms] by blast
  let ?fs = "first_seen (map doc_source results)"
  let ?K = "card (doc_source ` set results)"
  let ?cits = "citation_info st"
  have K: "length ?fs = ?K" by (simp add: length_first_seen)
  have keys: "map fst ?cits = map (\<lambda>j. int j + 1) [0..<?K]"
    using st(1) K by (simp add: assembled_def Let_def citation_keys_def)
  note ent = assembled_entries [OF st(1)]
  have ids: "map (cit_id \<circ> snd) ?cits = map fst ?cits"
    using arg_cong [OF ent, of "map cit_id"] keys by (simp add: comp_def)
  have "map (source_name \<circ> snd) ?cits = map (\<lambda>j. ?fs ! j) [0..<?K]"
    using arg_cong [OF ent, of "map source_name"] by (simp add: comp_def)
  then have names: "map (source_name \<circ> snd) ?cits = ?fs"
    using K map_nth [of ?fs] by simp
  have d: "distinct (map (source_name \<circ> snd) ?cits)"
    unfolding names by (rule distinct_first_seen)
  have s: "set (map (source_name \<circ> snd) ?cits) = doc_source ` set results"
    unfolding names by (simp add: set_first_seen)
  from st(2) keys ids names d s show ?thesis by blast
qed

lemma make_excerpt_eq:
  "make_excerpt t = (if length t \<le> 300 then t else take 300 t @ ''...'')"
  by (simp add: make_excerpt_def py_slice_def)

lemma assembled_names:
  assumes "assembled results st"
  shows "map (source_name \<circ> snd) (citation_info st) = first_seen (map doc_source results)"
proof -
  let ?fs = "first_seen (map doc_source results)"
  let ?K = "card (doc_source ` set results)"
  have K: "length ?fs = ?K" by (simp add: length_first_seen)
  have "map (source_name \<circ> snd) (citation_info st) = map (\<lambda>j. ?fs ! j) [0..<?K]"
    using arg_cong [OF assembled_entries [OF assms], of "map source_name"] by (simp add: comp_def)
  then show ?thesis using K map_nth [of ?fs] by simp
qed

text \<open>
  Claim C7: every retrieved chunk has the citation entry of its source, and its excerpt is
  stored there; there is one entry for each source, and the excerpts of an entry are, in
  result order, the excerpts of the chunks of that source and nothing else. An excerpt is
  the chunk text when it has at most 300 characters and its first 300 characters followed
  by three dots otherwise, so a chunk of 310 characters gives an excerpt of 303 characters.
\<close>

theorem excerpt_truncation:
  assumes "retrieve_results vs notebook_id query selected_sources n_results = (calls, Inr results)"
  shows "\<exists>context cits.
           retrieve_context (Inr vs) notebook_id query selected_sources n_results
             = (calls, Inr (context, cits))
         \<and> (\<forall>d \<in> set results.
               \<exists>c \<in> set (map snd cits).
                 source_name c = doc_source d
                 \<and> make_excerpt (page_content d) \<in> set (excerpts c))
         \<and> distinct (map (source_name \<circ> snd) cits)
         \<and> (\<forall>c \<in> set (map snd cits).
               excerpts c = map (\<lambda>d. make_excerpt (page_content d))
                                (filter (\<lambda>d. doc_source d = source_name c) results))
         \<and> (\<forall>t. make_excerpt t
                      = (if length t \<le> 300 then t else take 300 t @ ''...''))
         \<and> (\<forall>t. length t = 310 \<longrightarrow> length (make_excerpt t) = 303)"
proof -
  obtain st where st: "assembled results st"
      "retrieve_context (Inr vs) notebook_id query selected_sources n_results
              = (calls, Inr (py_join ''\<newline>\<newline>'' (context_parts st), citation_info st))"
    using retrieve_context_assembled [OF assms] by blast
  let ?cits = "citation_info st"
  have names: "map (source_name \<circ> snd) ?cits = first_seen (map doc_source results)"
    using st(1) by (rule assembled_names)
  have dn: "distinct (map (source_name \<circ> snd) ?cits)"
    unfolding names by (rule distinct_first_seen)
  have ex: "excerpts c = excerpts_of results (source_name c)"
    if "c \<in> set (map snd ?cits)" for c
    using that unfolding assembled_entries [OF st(1)] by auto
  then have a: "\<forall>c \<in> set (map snd ?cits).
               excerpts c = map (\<lambda>d. make_excerpt (page_content d))
                                (filter (\<lambda>d. doc_source d = source_name c) results)"
    by (simp add: excerpts_of_def)
  have each: "\<exists>c \<in> set (map snd ?cits).
                 source_name c = doc_source d
                 \<and> make_excerpt (page_content d) \<in> set (excerpts c)"
    if d: "d \<in> set results" for d
  proof -
    have "doc_source d \<in> set (first_seen (map doc_source results))"
      using d by (simp add: set_first_seen)
    then have "doc_source d \<in> set (map (source_name \<circ> snd) ?cits)"
      by (simp only: names)
    then have "doc_source d \<in> source_name ` set (map snd ?cits)"
      by (simp add: image_image)
    then obtain c where c': "doc_source d = source_name c" "c \<in> set (map snd ?cits)"
      by (rule imageE)
    then have c: "c \<in> set (map snd ?cits)" "source_name c = doc_source d"
      by simp_all
    have "make_excerpt (page_content d) \<in> set (excerpts_of results (doc_source d))"
      using d by (auto simp: excerpts_of_def)
    then have "make_excerpt (page_content d) \<in> set (excerpts c)"
      using ex [OF c(1)] c(2) by simp
    then show ?thesis using c by blast
  qed
  have b: "length (make_excerpt t) = 303" if "length t = 310" for t :: string
    using that by (simp add: make_excerpt_eq)
  from st(2) each dn a make_excerpt_eq b show ?thesis by blast
qed


lemma balanced_loop_Cons:
  "balanced_loop vs nb q k (s # rest) calls results =
     (case vs (source_call nb q k s) of
        Inr docs \<Rightarrow> balanced_loop vs nb q k rest (calls @ [source_call nb q k s]) (results @ docs)
      | Inl e \<Rightarrow>
          if is_Exception e
          then balanced_loop vs nb q k rest (calls @ [source_call nb q k s]) results
          else (calls @ [source_call nb q k s], Inl e))"
  by (simp add: balanced_loop.simps(2) Let_def source_call_def split: sum.splits)

declare balanced_loop.simps(2) [simp del]

lemma balanced_loop_returns:
  "balanced_loop vs nb q k srcs calls results = (calls', Inr res) \<Longrightarrow>
     calls' = calls @ map (source_call nb q k) srcs
     \<and> res = results @ concat (map (\<lambda>s. contribution vs (source_call nb q k s)) srcs)"
proof (induction srcs arbitrary: calls results)
  case Nil
  then show ?case by simp
next
  case (Cons s srcs)
  show ?case
  proof (cases "vs (source_call nb q k s)")
    case (Inl e)
    then have "balanced_loop vs nb q k srcs (calls @ [source_call nb q k s]) results = (calls', Inr res)"
      using Cons.prems by (simp add: balanced_loop_Cons split: if_splits)
    from Cons.IH [OF this] show ?thesis using Inl by (simp add: contribution_def)
  next
    case (Inr docs)
    then have "balanced_loop vs nb q k srcs (calls @ [source_call nb q k s]) (results @ docs)
                 = (calls', Inr res)"
      using Cons.prems by (simp add: balanced_loop_Cons)
    from Cons.IH [OF this] show ?thesis using Inr by (simp add: contribution_def)
  qed
qed

lemma balanced_loop_prefix:
  "prefix (fst (balanced_loop vs nb q k srcs calls results)) (calls @ map (source_call nb q k) srcs)
   \<and> prefix calls (fst (balanced_loop vs nb q k srcs calls results))
   \<and> (srcs \<noteq> [] \<longrightarrow> fst (balanced_loop vs nb q k srcs calls results) \<noteq> calls)"
proof (induction srcs arbitrary: calls results)
  case Nil
  then show ?case by simp
next
  case (Cons s srcs)
  let ?c = "source_call nb q k s"
  have ih: "prefix (fst (balanced_loop vs nb q k srcs (calls @ [?c]) r)) (calls @ ?c # map (source_call nb q k) srcs)
      \<and> prefix (calls @ [?c]) (fst (balanced_loop vs nb q k srcs (calls @ [?c]) r))" for r
    using Cons.IH [of "calls @ [?c]" r] by simp
  have ne: "fst (balanced_loop vs nb q k srcs (calls @ [?c]) r) \<noteq> calls" for r
    using ih [of r] by (auto simp: prefix_def)
  have pc: "prefix calls (fst (balanced_loop vs nb q k srcs (calls @ [?c]) r))" for r
    using ih [of r] by (auto simp: prefix_def)
  show ?case
  proof (cases "vs ?c")
    case (Inl e)
    then show ?thesis
      using ih [of results] ne [of results] pc [of results]
      by (simp add: balanced_loop_Cons)
  next
    case (Inr docs)
    then show ?thesis
      using ih [of "results @ docs"] ne [of "results @ docs"] pc [of "results @ docs"]
      by (simp add: balanced_loop_Cons)
  qed
qed

lemma retrieve_context_calls:
  "fst (retrieve_context (Inr vs) nb q sel n) = fst (retrieve_results vs nb q sel n)"
  using assemble_total
  by (fastforce simp: retrieve_context_def split: prod.splits sum.splits)

lemma retrieve_context_ok:
  assumes "retrieve_results vs notebook_id query selected_sources n_results = (calls, Inr results)"
  shows "\<exists>r. retrieve_context (Inr vs) notebook_id query selected_sources n_results
               = (calls, Inr r)"
proof -
  obtain st where st: "assemble assembly_init results = Inr st"
    using assemble_total by blast
  show ?thesis using assms st by (simp add: retrieve_context_def)
qed

lemma retrieve_context_returns:
  assumes "snd (retrieve_context (Inr vs) nb q sel n) = Inr r"
  shows "\<exists>results. snd (retrieve_results vs nb q sel n) = Inr results"
  using assms by (auto simp: retrieve_context_def split: prod.splits sum.splits)

lemma retrieve_results_balanced:
  assumes "sources_of sel \<noteq> []" "length (sources_of sel) \<le> 5"
  shows "retrieve_results vs nb q sel n =
           balanced_loop vs nb q (per_source_k n (sources_of sel)) (sources_of sel) [] []"
  using assms by (simp add: retrieve_results_def balanced_mode_def)

lemma retrieve_results_global:
  assumes "sources_of sel = [] \<or> 5 < length (sources_of sel)"
  shows "retrieve_results vs nb q sel n
           = ([(q, n, filter_dict nb sel)], vs (q, n, filter_dict nb sel))"
  using assms by (auto simp: retrieve_results_def balanced_mode_def Let_def)

text \<open>
  Claim C2: with a selection of one to five sources \<open>retrieve_context\<close> searches once for
  each selected source, in selection order (all of them whenever the call returns; only
  an error that is not an \<open>Exception\<close> stops the loop early), each search asking for
  \<open>per_source_k\<close> chunks of that one source; with no selection, an empty one or more than
  five sources it makes the single search for \<open>n_results\<close> chunks under the notebook
  filter.
\<close>

theorem retrieval_mode_threshold:
  "(sources_of sel \<noteq> [] \<and> length (sources_of sel) \<le> 5 \<longrightarrow>
      prefix (fst (retrieve_context (Inr vs) nb q sel n))
             (map (source_call nb q (per_source_k n (sources_of sel))) (sources_of sel))
      \<and> fst (retrieve_context (Inr vs) nb q sel n) \<noteq> []
      \<and> (\<forall>r. snd (retrieve_context (Inr vs) nb q sel n) = Inr r \<longrightarrow>
            fst (retrieve_context (Inr vs) nb q sel n)
              = map (source_call nb q (per_source_k n (sources_of sel))) (sources_of sel)))
   \<and> (sources_of sel = [] \<or> 5 < length (sources_of sel) \<longrightarrow>
        fst (retrieve_context (Inr vs) nb q sel n) = [(q, n, filter_dict nb sel)])"
proof (intro conjI impI)
  assume b: "sources_of sel \<noteq> [] \<and> length (sources_of sel) \<le> 5"
  let ?k = "per_source_k n (sources_of sel)"
  have rr: "retrieve_results vs nb q sel n = balanced_loop vs nb q ?k (sources_of sel) [] []"
    using b by (simp add: retrieve_results_balanced)
  note p = balanced_loop_prefix [of vs nb q ?k "sources_of sel" "[]" "[]"]
  show "prefix (fst (retrieve_context (Inr vs) nb q sel n)) (map (source_call nb q ?k) (sources_of sel))"
    using p by (simp add: retrieve_context_calls rr)
  show "fst (retrieve_context (Inr vs) nb q sel n) \<noteq> []"
    using p b by (simp add: retrieve_context_calls rr)
  show "\<forall>r. snd (retrieve_context (Inr vs) nb q sel n) = Inr r \<longrightarrow>
            fst (retrieve_context (Inr vs) nb q sel n) = map (source_call nb q ?k) (sources_of sel)"
  proof (intro allI impI)
    fix r assume "snd (retrieve_context (Inr vs) nb q sel n) = Inr r"
    then obtain results where "snd (retrieve_results vs nb q sel n) = Inr results"
      using retrieve_context_returns by blast
    then have "balanced_loop vs nb q ?k (sources_of sel) [] []
                 = (fst (retrieve_results vs nb q sel n), Inr results)"
      unfolding rr by (metis prod.collapse)
    from balanced_loop_returns [OF this]
    show "fst (retrieve_context (Inr vs) nb q sel n) = map (source_call nb q ?k) (sources_of sel)"
      by (simp add: retrieve_context_calls)
  qed
next
  assume "sources_of sel = [] \<or> 5 < length (sources_of sel)"
  then show "fst (retrieve_context (Inr vs) nb q sel n) = [(q, n, filter_dict nb sel)]"
    by (simp add: retrieve_context_calls retrieve_results_global)
qed


lemma example_global:
  "retrieve_results example_store ''nb'' ''q'' None 5
     = ([(''q'', 5, ByNotebook ''nb'')], Inr example_docs)"
  by (simp add: retrieve_results_def balanced_mode_def sources_of_def filter_dict_def
        example_store_def)

lemma example_sources:
  "map doc_source example_docs = [''b.txt'', ''a.txt'', ''b.txt'']"
  by (simp add: example_docs_def doc_source_def)

theorem citation_ids_dense_witness:
  "retrieve_results example_store ''nb'' ''q'' None 5
     = ([(''q'', 5, ByNotebook ''nb'')], Inr example_docs)
   \<and> (\<exists>context cits.
         retrieve_context (Inr example_store) ''nb'' ''q'' None 5
           = ([(''q'', 5, ByNotebook ''nb'')], Inr (context, cits))
       \<and> map fst cits = [1, 2]
       \<and> map (cit_id \<circ> snd) cits = [1, 2]
       \<and> map (source_name \<circ> snd) cits = [''b.txt'', ''a.txt''])"
proof -
  have s: "doc_source ` set example_docs = {''b.txt'', ''a.txt''}"
    using arg_cong [OF example_sources, of set] by auto
  have c: "card (doc_source ` set example_docs) = 2"
    unfolding s by simp
  have u: "[0..<2] = [0, Suc 0]" by (simp add: upt_rec)
  from citation_ids_dense [OF example_global] obtain ctx cits where
    r: "retrieve_context (Inr example_store) ''nb'' ''q'' None 5
           = ([(''q'', 5, ByNotebook ''nb'')], Inr (ctx, cits))"
    and k: "map fst cits = map (\<lambda>j. int j + 1) [0..<card (doc_source ` set example_docs)]"
    and i: "map (cit_id \<circ> snd) cits = map fst cits"
    and n: "map (source_name \<circ> snd) cits = first_seen (map doc_source example_docs)"
    by blast
  have k': "map fst cits = [1, 2]" using k unfolding c by (simp add: u)
  have n': "map (source_name \<circ> snd) cits = [''b.txt'', ''a.txt'']"
    using n unfolding example_sources by simp
  have i': "map (cit_id \<circ> snd) cits = [1, 2]" using i k' by simp
  from example_global r k' i' n' show ?thesis by simp
qed

lemma example_docs_mem:
  "\<lparr>page_content = replicate 310 (CHR ''x''), metadata = [''source_name'' \<mapsto> ''b.txt'']\<rparr>
     \<in> set example_docs"
  by (simp add: example_docs_def)

lemma example_b_excerpts:
  "map (\<lambda>d. make_excerpt (page_content d)) (filter (\<lambda>d. doc_source d = ''b.txt'') example_docs)
     = [''beta'', replicate 300 (CHR ''x'') @ ''...'']"
proof -
  have "make_excerpt (replicate 310 (CHR ''x'')) = replicate 300 (CHR ''x'') @ ''...''"
    by (simp add: make_excerpt_eq)
  moreover have "make_excerpt ''beta'' = ''beta''" by (simp add: make_excerpt_eq)
  ultimately show ?thesis by (simp add: example_docs_def doc_source_def)
qed

theorem excerpt_truncation_witness:
  "retrieve_results example_store ''nb'' ''q'' None 5
     = ([(''q'', 5, ByNotebook ''nb'')], Inr example_docs)
   \<and> length (replicate 310 (CHR ''x'')) = 310
   \<and> length (make_excerpt (replicate 310 (CHR ''x''))) = 303
   \<and> (\<exists>context cits.
         retrieve_context (Inr example_store) ''nb'' ''q'' None 5
           = ([(''q'', 5, ByNotebook ''nb'')], Inr (context, cits))
       \<and> (\<exists>c \<in> set (map snd cits).
             source_name c = ''b.txt''
             \<and> excerpts c = [''beta'', replicate 300 (CHR ''x'') @ ''...'']))"
proof -
  let ?d = "\<lparr>page_content = replicate 310 (CHR ''x''), metadata = [''source_name'' \<mapsto> ''b.txt'']\<rparr>"
  have l: "length (replicate 310 (CHR ''x'')) = 310" by (rule length_replicate)
  have s: "doc_source ?d = ''b.txt''" by (simp add: doc_source_def)
  from excerpt_truncation [OF example_global] obtain ctx cits where
    r: "retrieve_context (Inr example_store) ''nb'' ''q'' None 5
           = ([(''q'', 5, ByNotebook ''nb'')], Inr (ctx, cits))"
    and each: "\<forall>d \<in> set example_docs.
               \<exists>c \<in> set (map snd cits).
                 source_name c = doc_source d
                 \<and> make_excerpt (page_content d) \<in> set (excerpts c)"
    and ex: "\<forall>c \<in> set (map snd cits).
               excerpts c = map (\<lambda>d. make_excerpt (page_content d))
                                (filter (\<lambda>d. doc_source d = source_name c) example_docs)"
    and len: "\<forall>t. length t = 310 \<longrightarrow> length (make_excerpt t) = (303::nat)"
    by blast
  from each example_docs_mem obtain c where
    c: "c \<in> set (map snd cits)" "source_name c = doc_source ?d"
    by blast
  have n: "source_name c = ''b.txt''" using c(2) s by simp
  have "excerpts c = map (\<lambda>d. make_excerpt (page_content d))
                         (filter (\<lambda>d. doc_source d = source_name c) example_docs)"
    using ex c(1) by blast
  then have e: "excerpts c = [''beta'', replicate 300 (CHR ''x'') @ ''...'']"
    unfolding n example_b_excerpts .
  have l3: "length (make_excerpt (replicate 310 (CHR ''x''))) = 303" using len l by blast
  have "\<exists>c \<in> set (map snd cits).
             source_name c = ''b.txt''
             \<and> excerpts c = [''beta'', replicate 300 (CHR ''x'') @ ''...'']"
    using c(1) n e by blast
  with r have "\<exists>context cits.
         retrieve_context (Inr example_store) ''nb'' ''q'' None 5
           = ([(''q'', 5, ByNotebook ''nb'')], Inr (context, cits))
       \<and> (\<exists>c \<in> set (map snd cits).
             source_name c = ''b.txt''
             \<and> excerpts c = [''beta'', replicate 300 (CHR ''x'') @ ''...''])"
    by blast
  with example_global l l3 show ?thesis by blast
qed

lemma example_five:
  "retrieve_results example_store ''nb'' ''q''
      (Some [''a.txt'', ''b.txt'', ''c.txt'', ''d.txt'', ''e.txt'']) 10
     = (map (source_call ''nb'' ''q'' 3) [''a.txt'', ''b.txt'', ''c.txt'', ''d.txt'', ''e.txt''],
        Inr [\<lparr>page_content = ''alpha'', metadata = [''source_name'' \<mapsto> ''a.txt'']\<rparr>])"
  by (simp add: retrieve_results_def balanced_mode_def sources_of_def per_source_k_def
        py_int_truediv_def balanced_loop_Cons source_call_def example_store_def is_Exception_def)

theorem retrieval_mode_threshold_witness:
  "length (sources_of (Some [''a.txt'', ''b.txt'', ''c.txt'', ''d.txt'', ''e.txt''])) \<le> 5
   \<and> fst (retrieve_context (Inr example_store) ''nb'' ''q''
            (Some [''a.txt'', ''b.txt'', ''c.txt'', ''d.txt'', ''e.txt'']) 10)
       = map (source_call ''nb'' ''q'' 3) [''a.txt'', ''b.txt'', ''c.txt'', ''d.txt'', ''e.txt'']
   \<and> 5 < length (sources_of (Some [''a.txt'', ''b.txt'', ''c.txt'', ''d.txt'', ''e.txt'', ''f.txt'']))
   \<and> fst (retrieve_context (Inr example_store) ''nb'' ''q''
            (Some [''a.txt'', ''b.txt'', ''c.txt'', ''d.txt'', ''e.txt'', ''f.txt'']) 10)
       = [(''q'', 10, ByNotebookAndSources ''nb''
             [''a.txt'', ''b.txt'', ''c.txt'', ''d.txt'', ''e.txt'', ''f.txt''])]"
proof -
  let ?five = "Some [''a.txt'', ''b.txt'', ''c.txt'', ''d.txt'', ''e.txt'']"
  let ?six = "Some [''a.txt'', ''b.txt'', ''c.txt'', ''d.txt'', ''e.txt'', ''f.txt'']"
  from retrieve_context_ok [OF example_five] obtain r0 where
    "retrieve_context (Inr example_store) ''nb'' ''q'' ?five 10
      = (map (source_call ''nb'' ''q'' 3) [''a.txt'', ''b.txt'', ''c.txt'', ''d.txt'', ''e.txt''],
         Inr r0)" ..
  then have r: "snd (retrieve_context (Inr example_store) ''nb'' ''q'' ?five 10) = Inr r0"
    by simp
  have k: "per_source_k 10 (sources_of ?five) = 3"
    by (simp add: per_source_k_def py_int_truediv_def sources_of_def)
  have f: "sources_of ?five \<noteq> [] \<and> length (sources_of ?five) \<le> 5"
    by (simp add: sources_of_def)
  have s: "sources_of ?six = [] \<or> 5 < length (sources_of ?six)"
    by (simp add: sources_of_def)
  from retrieval_mode_threshold [of ?five example_store "''nb''" "''q''" 10] f r k
  have a: "fst (retrieve_context (Inr example_store) ''nb'' ''q'' ?five 10)
       = map (source_call ''nb'' ''q'' 3) (sources_of ?five)"
    by metis
  from retrieval_mode_threshold [of ?six example_store "''nb''" "''q''" 10] s
  have b: "fst (retrieve_context (Inr example_store) ''nb'' ''q'' ?six 10)
             = [(''q'', 10, filter_dict ''nb'' ?six)]"
    by metis
  show ?thesis using a b f s by (simp add: sources_of_def filter_dict_def)
qed


section \<open>Properties of the provider registry\<close>

lemma dict_set_entries:
  "entry \<in> set (dict_set d k v) \<Longrightarrow> entry \<in> set d \<or> entry = (k, v)"
  by (auto simp: dict_set_def split: if_splits)

lemma registry_wf_set:
  assumes "registry_wf reg" "dict_get PROVIDERS name = Some (kind p)"
  shows "registry_wf (reg\<lparr>instances := dict_set (instances reg) name p\<rparr>)"
proof -
  have "dict_get PROVIDERS (fst entry) = Some (kind (snd entry))"
    if "entry \<in> set (dict_set (instances reg) name p)" for entry
  proof -
    from dict_set_entries [OF that] show ?thesis
    proof
      assume "entry \<in> set (instances reg)"
      then show ?thesis using assms(1) by (simp add: registry_wf_def list_all_iff)
    next
      assume "entry = (name, p)"
      then show ?thesis using assms(2) by simp
    qed
  qed
  then show ?thesis by (simp add: registry_wf_def list_all_iff)
qed

lemma registry_wf_lookup:
  assumes "registry_wf reg" "dict_get (instances reg) name = Some p"
  shows "dict_get PROVIDERS name = Some (kind p)"
proof -
  have "(name, p) \<in> set (instances reg)"
    using assms(2) by (simp add: dict_get_def map_of_SomeD)
  then show ?thesis using assms(1) by (auto simp: registry_wf_def list_all_iff)
qed

lemma registry_wf_init: "registry_wf registry_init"
  by (simp add: registry_wf_def registry_init_def)

lemma kind_construct: "kind (construct env k key) = k"
  by (cases k) simp_all

lemma get_provider_registered:
  assumes "registry_wf reg" "dict_get PROVIDERS name = Some k"
  shows "\<exists>p. fst (get_provider env reg name) = Inr p \<and> kind p = k"
    and "registry_wf (snd (get_provider env reg name))"
    and "same_selection reg (snd (get_provider env reg name))"
proof -
  show "\<exists>p. fst (get_provider env reg name) = Inr p \<and> kind p = k"
  proof (cases "dict_get (instances reg) name")
    case None
    then show ?thesis using assms(2) by (simp add: get_provider_def kind_construct)
  next
    case (Some p)
    then show ?thesis
      using assms(2) registry_wf_lookup [OF assms(1) Some] by (simp add: get_provider_def)
  qed
  show "registry_wf (snd (get_provider env reg name))"
  proof (cases "dict_get (instances reg) name")
    case None
    have "registry_wf (reg\<lparr>instances := dict_set (instances reg) name (construct env k None)\<rparr>)"
      using assms by (intro registry_wf_set) (simp_all add: kind_construct)
    then show ?thesis using assms(2) None by (simp add: get_provider_def)
  next
    case (Some p)
    then show ?thesis using assms by (simp add: get_provider_def)
  qed
  show "same_selection reg (snd (get_provider env reg name))"
    using assms(2)
    by (cases "dict_get (instances reg) name") (simp_all add: get_provider_def same_selection_def)
qed

lemma registry_wf_selection:
  "registry_wf (reg\<lparr>chat_provider_name := a\<rparr>) = registry_wf reg"
  "registry_wf (reg\<lparr>chat_model := b\<rparr>) = registry_wf reg"
  "registry_wf (reg\<lparr>embedding_provider_name := c\<rparr>) = registry_wf reg"
  "registry_wf (reg\<lparr>embedding_model := d\<rparr>) = registry_wf reg"
  by (simp_all add: registry_wf_def)

lemma set_embedding_provider_unsupported:
  assumes "registry_wf reg" "dict_get PROVIDERS name = Some k"
    "\<not> supports_embeddings (capabilities k)"
  shows "fst (set_embedding_provider env reg name model_name)
           = Some (Raised ValueError (''Provider '' @ name @ '' does not support embeddings''))"
    and "registry_wf (snd (set_embedding_provider env reg name model_name))"
    and "same_selection reg (snd (set_embedding_provider env reg name model_name))"
proof -
  obtain x reg1 where g: "get_provider env reg name = (x, reg1)" by force
  obtain p where p: "x = Inr p" "kind p = k"
    using get_provider_registered(1) [OF assms(1,2), of env] g by auto
  have w: "registry_wf reg1" "same_selection reg reg1"
    using get_provider_registered(2,3) [OF assms(1,2), of env] g by simp_all
  have e: "set_embedding_provider env reg name model_name
             = (Some (Raised ValueError (''Provider '' @ name @ '' does not support embeddings'')),
                reg1)"
    using assms(2,3) g p by (simp add: set_embedding_provider_def)
  show "fst (set_embedding_provider env reg name model_name)
           = Some (Raised ValueError (''Provider '' @ name @ '' does not support embeddings''))"
    and "registry_wf (snd (set_embedding_provider env reg name model_name))"
    and "same_selection reg (snd (set_embedding_provider env reg name model_name))"
    using w by (simp_all add: e)
qed

lemma set_embedding_provider_supported:
  assumes "registry_wf reg" "dict_get PROVIDERS name = Some k"
    "supports_embeddings (capabilities k)"
  shows "fst (set_embedding_provider env reg name model_name) = None"
    and "registry_wf (snd (set_embedding_provider env reg name model_name))"
    and "embedding_provider_name (snd (set_embedding_provider env reg name model_name)) = name"
    and "embedding_model (snd (set_embedding_provider env reg name model_name)) = model_name"
    and "chat_provider_name (snd (set_embedding_provider env reg name model_name))
           = chat_provider_name reg"
    and "chat_model (snd (set_embedding_provider env reg name model_name)) = chat_model reg"
proof -
  obtain x reg1 where g: "get_provider env reg name = (x, reg1)" by force
  obtain p where p: "x = Inr p" "kind p = k"
    using get_provider_registered(1) [OF assms(1,2), of env] g by auto
  have w: "registry_wf reg1" "same_selection reg reg1"
    using get_provider_registered(2,3) [OF assms(1,2), of env] g by simp_all
  let ?reg2 = "reg1\<lparr>embedding_provider_name := name, embedding_model := model_name\<rparr>"
  let ?reg3 = "?reg2\<lparr>instances := dict_set (instances ?reg2) name
                                     (p\<lparr>prov_embedding_model := model_name\<rparr>)\<rparr>"
  have w2: "registry_wf ?reg2" using w(1) by (simp add: registry_wf_selection)
  have w3: "registry_wf ?reg3"
    using w2 assms(2) p(2) by (intro registry_wf_set) simp_all
  have e: "set_embedding_provider env reg name model_name
             = (None, if truthy model_name then ?reg3 else ?reg2)"
    using assms(2,3) g p by (simp add: set_embedding_provider_def Let_def)
  show "fst (set_embedding_provider env reg name model_name) = None"
    by (simp add: e)
  show "registry_wf (snd (set_embedding_provider env reg name model_name))"
    using w2 w3 by (simp add: e)
  show "embedding_provider_name (snd (set_embedding_provider env reg name model_name)) = name"
    and "embedding_model (snd (set_embedding_provider env reg name model_name)) = model_name"
    by (simp_all add: e)
  show "chat_provider_name (snd (set_embedding_provider env reg name model_name))
           = chat_provider_name reg"
    and "chat_model (snd (set_embedding_provider env reg name model_name)) = chat_model reg"
    using w(2) by (simp_all add: e same_selection_def)
qed

lemma set_chat_provider_registered:
  assumes "registry_wf reg" "dict_get PROVIDERS name \<noteq> None"
  shows "fst (set_chat_provider env reg name model_name) = None"
    and "registry_wf (snd (set_chat_provider env reg name model_name))"
    and "chat_provider_name (snd (set_chat_provider env reg name model_name)) = name"
    and "chat_model (snd (set_chat_provider env reg name model_name)) = model_name"
    and "embedding_provider_name (snd (set_chat_provider env reg name model_name))
           = embedding_provider_name reg"
    and "embedding_model (snd (set_chat_provider env reg name model_name)) = embedding_model reg"
proof -
  obtain k where k: "dict_get PROVIDERS name = Some k" using assms(2) by auto
  let ?reg1 = "reg\<lparr>chat_provider_name := name, chat_model := model_name\<rparr>"
  have wf1: "registry_wf ?reg1" using assms(1) by (simp add: registry_wf_selection)
  obtain x reg2 where g: "get_provider env ?reg1 name = (x, reg2)" by force
  obtain p where p: "x = Inr p" "kind p = k"
    using get_provider_registered(1) [OF wf1 k, of env] g by auto
  have w: "registry_wf reg2" "same_selection ?reg1 reg2"
    using get_provider_registered(2,3) [OF wf1 k, of env] g by simp_all
  let ?reg3 = "reg2\<lparr>instances := dict_set (instances reg2) name (p\<lparr>prov_chat_model := model_name\<rparr>)\<rparr>"
  have w3: "registry_wf ?reg3"
    using w(1) k p(2) by (intro registry_wf_set) simp_all
  have e: "set_chat_provider env reg name model_name
             = (None, if truthy model_name then ?reg3 else ?reg1)"
    using k g p by (simp add: set_chat_provider_def Let_def)
  show "fst (set_chat_provider env reg name model_name) = None"
    by (simp add: e)
  show "registry_wf (snd (set_chat_provider env reg name model_name))"
    using wf1 w3 by (simp add: e)
  show "chat_provider_name (snd (set_chat_provider env reg name model_name)) = name"
    and "chat_model (snd (set_chat_provider env reg name model_name)) = model_name"
    and "embedding_provider_name (snd (set_chat_provider env reg name model_name))
           = embedding_provider_name reg"
    and "embedding_model (snd (set_chat_provider env reg name model_name)) = embedding_model reg"
    using w(2) by (simp_all add: e same_selection_def)
qed

lemma same_selection_instances:
  "same_selection reg (reg\<lparr>instances := insts\<rparr>)"
  by (simp add: same_selection_def)

lemma same_selection_trans:
  "same_selection a b \<Longrightarrow> same_selection b c \<Longrightarrow> same_selection a c"
  by (simp add: same_selection_def)

lemma apply_api_keys_ok:
  assumes "registry_wf reg" "fst (apply_api_keys env reg keys) = None"
  shows "registry_wf (snd (apply_api_keys env reg keys))
       \<and> same_selection reg (snd (apply_api_keys env reg keys))"
  using assms
proof (induction keys arbitrary: reg)
  case Nil
  then show ?case by (simp add: same_selection_def)
next
  case (Cons a keys)
  obtain name key where a: "a = (name, key)" by (cases a)
  show ?case
  proof (cases "dict_get (instances reg) name")
    case (Some p)
    let ?reg1 = "reg\<lparr>instances := dict_set (instances reg) name (p\<lparr>api_key := Some key\<rparr>)\<rparr>"
    have e: "apply_api_keys env reg (a # keys) = apply_api_keys env ?reg1 keys"
      using Some by (simp add: a)
    have wf1: "registry_wf ?reg1"
      using Cons.prems(1) registry_wf_lookup [OF Cons.prems(1) Some]
      by (intro registry_wf_set) simp_all
    from Cons.IH [OF wf1] Cons.prems(2) e
    show ?thesis using same_selection_trans [OF same_selection_instances] by auto
  next
    case None
    show ?thesis
    proof (cases "dict_get PROVIDERS name")
      case pn: None
      have e: "apply_api_keys env reg (a # keys) = apply_api_keys env reg keys"
        using None pn by (simp add: a)
      from Cons.IH [OF Cons.prems(1)] Cons.prems(2) e show ?thesis by auto
    next
      case (Some k)
      show ?thesis
      proof (cases "construct_with_api_key env k key")
        case (Inl err)
        then have "fst (apply_api_keys env reg (a # keys)) = Some err"
          using None Some by (simp add: a)
        then show ?thesis using Cons.prems(2) by simp
      next
        case (Inr p)
        then have kp: "kind p = k"
          by (auto simp: construct_with_api_key_def kind_construct split: if_splits)
        let ?reg1 = "reg\<lparr>instances := dict_set (instances reg) name p\<rparr>"
        have e: "apply_api_keys env reg (a # keys) = apply_api_keys env ?reg1 keys"
          using None Some Inr by (simp add: a)
        have wf1: "registry_wf ?reg1"
          using Cons.prems(1) Some kp by (intro registry_wf_set) simp_all
        from Cons.IH [OF wf1] Cons.prems(2) e
        show ?thesis using same_selection_trans [OF same_selection_instances] by auto
      qed
    qed
  qed
qed

lemma unsupported_is_anthropic:
  "\<not> supports_embeddings (capabilities k) \<longleftrightarrow> k = AnthropicProvider"
  by (cases k) simp_all

text \<open>
  Claim C8: for a registered provider whose capabilities say it has no embeddings (the
  Anthropic provider), \<open>set_embedding_provider\<close> raises the \<open>ValueError\<close> "Provider ... does
  not support embeddings" and leaves the active embedding provider and model as they
  were; and the adapter's own \<open>get_embeddings\<close> and \<open>embed_text\<close> raise
  \<open>NotImplementedError\<close>: no other provider's embeddings are built or called.
\<close>

theorem embedding_capability_gate:
  assumes "registry_wf reg" "dict_get PROVIDERS name = Some k"
    "\<not> supports_embeddings (capabilities k)"
  shows "fst (set_embedding_provider env reg name model_name)
           = Some (Raised ValueError (''Provider '' @ name @ '' does not support embeddings''))
       \<and> embedding_provider_name (snd (set_embedding_provider env reg name model_name))
           = embedding_provider_name reg
       \<and> embedding_model (snd (set_embedding_provider env reg name model_name))
           = embedding_model reg
       \<and> (\<forall>p. kind p = k \<longrightarrow>
            (\<exists>msg. get_embeddings new_embeddings p model_name = Inl (Raised NotImplementedError msg)
                 \<and> embed_text new_embeddings aembed_query p input model_name
                     = Inl (Raised NotImplementedError msg)))"
proof -
  note u = set_embedding_provider_unsupported [OF assms, of env model_name]
  have k: "k = AnthropicProvider" using assms(3) by (simp add: unsupported_is_anthropic)
  have "\<exists>msg. get_embeddings new_embeddings p model_name = Inl (Raised NotImplementedError msg)
             \<and> embed_text new_embeddings aembed_query p input model_name
                  = Inl (Raised NotImplementedError msg)"
    if "kind p = k" for p
    using that k by (simp add: get_embeddings_def embed_text_def)
  then show ?thesis using u by (simp add: same_selection_def)
qed

theorem embedding_capability_gate_witness:
  "registry_wf registry_init
   \<and> dict_get PROVIDERS ''anthropic'' = Some AnthropicProvider
   \<and> \<not> supports_embeddings (capabilities AnthropicProvider)
   \<and> fst (set_embedding_provider example_env registry_init ''anthropic'' (Some ''voyage-3''))
       = Some (Raised ValueError ''Provider anthropic does not support embeddings'')
   \<and> embedding_provider_name
        (snd (set_embedding_provider example_env registry_init ''anthropic'' (Some ''voyage-3'')))
       = ''ollama''
   \<and> kind (construct example_env AnthropicProvider None) = AnthropicProvider
   \<and> (\<exists>msg. embed_text (\<lambda>args. Inr ()) (\<lambda>e t. Inr ())
                (construct example_env AnthropicProvider None) ''hello'' (Some ''voyage-3'')
              = Inl (Raised NotImplementedError msg))"
proof -
  have a: "dict_get PROVIDERS ''anthropic'' = Some AnthropicProvider"
    by (simp add: dict_get_def PROVIDERS_def)
  have b: "\<not> supports_embeddings (capabilities AnthropicProvider)" by simp
  have c: "embedding_provider_name registry_init = ''ollama''"
    by (simp add: registry_init_def)
  have d: "''Provider '' @ ''anthropic'' @ '' does not support embeddings''
             = ''Provider anthropic does not support embeddings''"
    by simp
  have e: "kind (construct example_env AnthropicProvider None) = AnthropicProvider" by simp
  note g = embedding_capability_gate [where reg = registry_init and name = "''anthropic''"
      and k = AnthropicProvider and env = example_env and model_name = "Some ''voyage-3''"
      and new_embeddings = "\<lambda>args. Inr ()" and aembed_query = "\<lambda>e t. Inr ()"
      and input = "''hello''", OF registry_wf_init a b, unfolded c d]
  have g1: "fst (set_embedding_provider example_env registry_init ''anthropic'' (Some ''voyage-3''))
       = Some (Raised ValueError ''Provider anthropic does not support embeddings'')"
    using g by (rule conjunct1)
  have g2: "embedding_provider_name
        (snd (set_embedding_provider example_env registry_init ''anthropic'' (Some ''voyage-3'')))
       = ''ollama''"
    using g by (elim conjE)
  have g3: "\<exists>msg. embed_text (\<lambda>args. Inr ()) (\<lambda>e t. Inr ())
                (construct example_env AnthropicProvider None) ''hello'' (Some ''voyage-3'')
              = Inl (Raised NotImplementedError msg)"
    using g e by blast
  from registry_wf_init a b g1 g2 e g3 show ?thesis by (intro conjI)
qed

text \<open>
  Claim C10, as stated, at the settings \<open>{chat_provider: "bogus", chat_model: "llama3",
  embedding_provider: "anthropic", embedding_model: "nomic-embed-text"}\<close> on a fresh
  registry: the embedding provider named has no embeddings, yet the call raises (the
  \<open>ValueError\<close> of \<open>set_chat_provider\<close>, which runs first and outside the \<open>try\<close>), the chat
  selection asked for is not applied and the embedding model is not passed on.
\<close>

theorem configure_counterexample:
  "dict_get PROVIDERS (option_or (settings_embedding_provider example_settings) ''ollama'')
     = Some AnthropicProvider
   \<and> \<not> supports_embeddings (capabilities AnthropicProvider)
   \<and> fst (configure_from_settings example_env registry_init example_settings)
       = Some (Raised ValueError ''Unknown provider: bogus'')
   \<and> chat_provider_name (snd (configure_from_settings example_env registry_init example_settings))
       = ''ollama''
   \<and> settings_chat_provider example_settings = Some ''bogus''
   \<and> embedding_model (snd (configure_from_settings example_env registry_init example_settings))
       = None
   \<and> settings_embedding_model example_settings = Some ''nomic-embed-text''"
  by (simp add: configure_from_settings_def example_settings_def set_chat_provider_def
        option_or_def dict_get_def PROVIDERS_def registry_init_def)

text \<open>
  Claim C10, amended: when the API keys of the settings are applied without error and the
  chat provider of the settings (\<open>"ollama"\<close> when absent) is a registered one, then for an
  \<open>embedding_provider\<close> that names a registered provider without embeddings
  \<open>configure_from_settings\<close> returns normally, the active embedding provider is
  \<open>"ollama"\<close> with the embedding model of the settings, and the active chat provider and
  model are the ones of the settings.
\<close>

theorem configure_embedding_fallback:
  assumes "registry_wf reg"
    and "settings_embedding_provider s = Some name"
    and "dict_get PROVIDERS name = Some k"
    and "\<not> supports_embeddings (capabilities k)"
    and "dict_get PROVIDERS (option_or (settings_chat_provider s) ''ollama'') \<noteq> None"
    and "fst (apply_api_keys env reg (settings_api_keys s)) = None"
  shows "fst (configure_from_settings env reg s) = None
       \<and> embedding_provider_name (snd (configure_from_settings env reg s)) = ''ollama''
       \<and> embedding_model (snd (configure_from_settings env reg s)) = settings_embedding_model s
       \<and> chat_provider_name (snd (configure_from_settings env reg s))
           = option_or (settings_chat_provider s) ''ollama''
       \<and> chat_model (snd (configure_from_settings env reg s)) = settings_chat_model s"
proof -
  let ?cp = "option_or (settings_chat_provider s) ''ollama''"
  let ?em = "settings_embedding_model s"
  obtain reg1 where k1: "apply_api_keys env reg (settings_api_keys s) = (None, reg1)"
    using assms(6) by (cases "apply_api_keys env reg (settings_api_keys s)") simp
  have w1: "registry_wf reg1"
    using apply_api_keys_ok [OF assms(1,6)] k1 by simp
  note c = set_chat_provider_registered [OF w1 assms(5), of env "settings_chat_model s"]
  obtain reg2 where k2: "set_chat_provider env reg1 ?cp (settings_chat_model s) = (None, reg2)"
    using c(1) by (cases "set_chat_provider env reg1 ?cp (settings_chat_model s)") simp
  have w2: "registry_wf reg2" and c2: "chat_provider_name reg2 = ?cp"
      "chat_model reg2 = settings_chat_model s"
    using c(2,3,4) k2 by simp_all
  note u = set_embedding_provider_unsupported [OF w2 assms(3,4), of env ?em]
  obtain reg3 where k3: "set_embedding_provider env reg2 name ?em
      = (Some (Raised ValueError (''Provider '' @ name @ '' does not support embeddings'')), reg3)"
    using u(1) by (cases "set_embedding_provider env reg2 name ?em") simp
  have w3: "registry_wf reg3" and c3: "same_selection reg2 reg3"
    using u(2,3) k3 by simp_all
  have o: "dict_get PROVIDERS ''ollama'' = Some OllamaProvider"
    by (simp add: dict_get_def PROVIDERS_def)
  have so: "supports_embeddings (capabilities OllamaProvider)" by simp
  note f = set_embedding_provider_supported [OF w3 o so, of env ?em]
  have e: "configure_from_settings env reg s = set_embedding_provider env reg3 ''ollama'' ?em"
    by (simp add: configure_from_settings_def k1 k2 assms(2) option_or_def [of "Some name"] k3)
  show ?thesis
    unfolding e using f c2 c3 by (simp add: same_selection_def)
qed

lemma example_good_keys:
  "fst (apply_api_keys example_env registry_init (settings_api_keys example_good_settings)) = None"
  by (simp add: example_good_settings_def registry_init_def dict_get_def PROVIDERS_def
        construct_with_api_key_def)

theorem configure_embedding_fallback_witness:
  "registry_wf registry_init
   \<and> settings_embedding_provider example_good_settings = Some ''anthropic''
   \<and> dict_get PROVIDERS ''anthropic'' = Some AnthropicProvider
   \<and> \<not> supports_embeddings (capabilities AnthropicProvider)
   \<and> dict_get PROVIDERS (option_or (settings_chat_provider example_good_settings) ''ollama'')
       \<noteq> None
   \<and> fst (apply_api_keys example_env registry_init (settings_api_keys example_good_settings))
       = None
   \<and> fst (configure_from_settings example_env registry_init example_good_settings) = None
   \<and> embedding_provider_name
        (snd (configure_from_settings example_env registry_init example_good_settings))
       = ''ollama''
   \<and> embedding_model
        (snd (configure_from_settings example_env registry_init example_good_settings))
       = Some ''nomic-embed-text''
   \<and> chat_provider_name
        (snd (configure_from_settings example_env registry_init example_good_settings))
       = ''openai''
   \<and> chat_model
        (snd (configure_from_settings example_env registry_init example_good_settings))
       = Some ''gpt-4o''"
proof -
  have a: "settings_embedding_provider example_good_settings = Some ''anthropic''"
    by (simp add: example_good_settings_def)
  have b: "dict_get PROVIDERS ''anthropic'' = Some AnthropicProvider"
    by (simp add: dict_get_def PROVIDERS_def)
  have c: "\<not> supports_embeddings (capabilities AnthropicProvider)" by simp
  have d: "option_or (settings_chat_provider example_good_settings) ''ollama'' = ''openai''"
    by (simp add: example_good_settings_def option_or_def)
  have d': "dict_get PROVIDERS (option_or (settings_chat_provider example_good_settings) ''ollama'')
       \<noteq> None"
    unfolding d by (simp add: dict_get_def PROVIDERS_def)
  have m: "settings_embedding_model example_good_settings = Some ''nomic-embed-text''"
      "settings_chat_model example_good_settings = Some ''gpt-4o''"
    by (simp_all add: example_good_settings_def)
  note f = configure_embedding_fallback [OF registry_wf_init a b c d' example_good_keys,
      unfolded d m]
  from registry_wf_init a b c d' example_good_keys f show ?thesis by (intro conjI) simp_all
qed

section \<open>Properties of the streamed response\<close>

declare str_nat.simps [simp del]











lemma py_enumerate_snd: "map snd (py_enumerate i xs) = xs"
  by (induction xs arbitrary: i) simp_all

lemma full_context_fold:
  assumes "\<forall>key \<in> set (map fst cits). key \<le> i"
  shows "foldl full_context_step (parts, cits) (py_enumerate i srcs)
           = (parts @ map full_block (py_enumerate i srcs),
              cits @ map full_citation (py_enumerate i srcs))"
  using assms
proof (induction srcs arbitrary: i parts cits)
  case Nil
  then show ?case by simp
next
  case (Cons src srcs)
  have "i + 1 \<notin> set (map fst cits)" using Cons.prems by auto
  then have "dict_get cits (i + 1) = None" by (simp add: dict_get_None)
  then have s: "full_context_step (parts, cits) (i, src)
                  = (parts @ [full_block (i, src)], cits @ [full_citation (i, src)])"
    by (simp add: full_context_step_def Let_def full_block_def full_citation_def dict_set_def
          dict_get_def)
  have "\<forall>key \<in> set (map fst (cits @ [full_citation (i, src)])). key \<le> i + 1"
    using Cons.prems by (auto simp: full_citation_def)
  from Cons.IH [OF this] s show ?case by simp
qed

lemma full_context_eq:
  "full_context srcs
     = (py_join ''\<newline>\<newline>'' (map full_block (py_enumerate 0 srcs)),
        map full_citation (py_enumerate 0 srcs))"
  using full_context_fold [of "[]" 0 "[]" srcs] by (simp add: full_context_def Let_def)







lemma build_context_full:
  assumes "full_source_content = Some srcs" "srcs \<noteq> []"
  shows "build_context gv nb um sel full_source_content = ([], Inr (full_context srcs))"
  using assms by (cases srcs) (simp_all add: build_context_def)






text \<open>
  Claim C9: when the stream of \<open>stream_response\<close> ends with an exception deriving from
  \<open>Exception\<close>, at whatever point and after whatever fragments, \<open>stream_chat_response\<close>
  yields those fragments, then the one fragment "Error generating response: " followed
  by \<open>str(e)\<close>, and ends normally.
\<close>

theorem streaming_error_caught:
  assumes "raised (stream_response json_dumps get_vectorstore get_chat_provider notebook_id
                     messages selected_sources full_source_content) = Some e"
    and "is_Exception e"
  shows "yielded (stream_chat_response json_dumps get_vectorstore get_chat_provider notebook_id
                     messages selected_sources full_source_content)
           = yielded (stream_response json_dumps get_vectorstore get_chat_provider notebook_id
                     messages selected_sources full_source_content)
             @ [''Error generating response: '' @ str_exc e]
       \<and> raised (stream_chat_response json_dumps get_vectorstore get_chat_provider notebook_id
                     messages selected_sources full_source_content) = None"
  using assms by (simp add: stream_chat_response_def Let_def)

section \<open>The streamed response on concrete inputs\<close>

lemma example_last: "last_content example_messages = Inr ''What is X?''"
  by (simp add: last_content_def example_messages_def)

lemma example_full_context:
  "build_context no_store ''nb'' um None (Some example_full)
     = ([], Inr (full_context example_full))"
  by (rule build_context_full) (simp_all add: example_full_def)






lemma example_stream_fail:
  "stream_response example_dumps no_store (Inr example_failing_chat) ''nb'' example_messages None
      (Some example_full)
     = \<lparr>searches = [], yielded = [''Hel'', ''lo''],
        raised = Some (Raised OtherException ''boom'')\<rparr>"
  by (simp add: stream_response_def example_last example_full_context full_context_eq
        example_failing_chat_def)

theorem streaming_error_caught_witness:
  "raised (stream_response example_dumps no_store (Inr example_failing_chat) ''nb''
             example_messages None (Some example_full))
     = Some (Raised OtherException ''boom'')
   \<and> is_Exception (Raised OtherException ''boom'')
   \<and> yielded (stream_chat_response example_dumps no_store (Inr example_failing_chat) ''nb''
               example_messages None (Some example_full))
       = [''Hel'', ''lo'', ''Error generating response: boom'']
   \<and> raised (stream_chat_response example_dumps no_store (Inr example_failing_chat) ''nb''
              example_messages None (Some example_full)) = None"
proof -
  have r: "raised (stream_response example_dumps no_store (Inr example_failing_chat) ''nb''
             example_messages None (Some example_full))
     = Some (Raised OtherException ''boom'')"
    by (simp add: example_stream_fail)
  have i: "is_Exception (Raised OtherException ''boom'')" by (simp add: is_Exception_def)
  from streaming_error_caught [OF r i] r i show ?thesis by (simp add: example_stream_fail)
qed

end
